theory Spec2Isabelle
  imports Main "HOL-Library.Word"
begin

unbundle bit_operations_syntax

section \<open>PSM firmware IO module: interrupt routing (xpsmfw_iomodule.c)\<close>

text \<open>
  The C file talks to the rest of the system in four ways only: it reads a memory-mapped
  register (\<open>XPsmFw_Read32\<close>), writes one (\<open>XPsmFw_Write32\<close>), prints
  (\<open>XPsmFw_Printf\<close>) and calls functions of other files (the per-source
  dispatchers, the XIOModule driver, the exception table of the BSP). The model records each
  of these as an event of a trace, oldest first. What a read returns and what status a
  foreign function returns are answers of the platform, which may depend on everything that
  happened before: they are functions of the trace so far.
\<close>

type_synonym u8 = "8 word"
type_synonym u16 = "16 word"
type_synonym u32 = "32 word"
type_synonym u64 = "64 word"

text \<open>
  \<open>XStatus\<close> is an integer type in C; the file compares it with \<open>XST_SUCCESS\<close> only and
  assigns \<open>XST_FAILURE\<close> and \<open>XST_INVALID_PARAM\<close>. The three named codes are distinct;
  every other code a foreign function may return is \<open>XST_OTHER\<close>.
\<close>

datatype XStatus = XST_SUCCESS | XST_FAILURE | XST_INVALID_PARAM | XST_OTHER int

text \<open>
  The registers the file names, one constructor for each address macro: the addresses are in
  headers that are not among the sources, and different macros are different registers.
\<close>

datatype reg =
    IPI_PSM_ISR
  | PSM_IOMODULE_IRQ_PENDING
  | PSM_IOMODULE_IRQ_ACK
  | PSM_GLOBAL_REG_REQ_PWRUP_STATUS
  | PSM_GLOBAL_REG_REQ_PWRUP_INT_MASK
  | PSM_GLOBAL_REG_REQ_PWRDWN_STATUS
  | PSM_GLOBAL_REG_REQ_PWRDWN_INT_MASK
  | PSM_GLOBAL_REG_WAKEUP_IRQ_STATUS
  | PSM_GLOBAL_REG_WAKEUP_IRQ_MASK
  | PSM_GLOBAL_REG_PWR_CTRL_IRQ_STATUS
  | PSM_GLOBAL_REG_PWR_CTRL_IRQ_MASK
  | PSM_GLOBAL_GICP2_IRQ_STATUS
  | PSM_GLOBAL_GICP2_IRQ_MASK
  | PSM_GLOBAL_REG_ERR1_TRIG

text \<open>
  Function pointers of type \<open>XInterruptHandler\<close> and \<open>Xil_ExceptionHandler\<close> that the
  file passes around: the three it names, and any other code address (a self-test handler
  of the caller). \<open>NULL\<close> is \<open>None\<close> of the option type.
\<close>

datatype fn_ptr =
    Fn_XPsmFw_IntrHandler
  | Fn_XPsmfw_ExceptionHandler
  | Fn_XIOModule_DeviceInterruptHandler
  | Fn_other nat

text \<open>Functions of other files that return a status, with their arguments.\<close>

datatype ext_fn =
    Call_XPsmFw_DispatchIpiHandler u32
  | Call_XPsmFw_DispatchPwrUpHandler u32 u32
  | Call_XPsmFw_DispatchPwrDwnHandler u32 u32 u32 u32
  | Call_XPsmFw_DispatchWakeupHandler u32 u32
  | Call_XPsmFw_DispatchPwrCtlHandler u32 u32
  | Call_XPsmFw_DispatchGicP2Handler u32 u32
  | Call_XIOModule_Connect u8 "fn_ptr option" "u32 option"

text \<open>Functions of other files that return nothing.\<close>

datatype ext_proc =
    Call_XIOModule_Enable u8
  | Call_XIOModule_Disable u8
  | Call_Xil_ExceptionRegisterHandler nat "fn_ptr option" "u32 option"

datatype debug_level = DEBUG_ERROR | DEBUG_DETAILED

datatype event =
    Read32 reg u32
  | Write32 reg u32
  | Printf debug_level string "u32 list"
  | Ext ext_fn XStatus
  | ExtVoid ext_proc

text \<open>
  The platform: the macros of headers that are not among the sources (masks, shifts,
  configuration switches and sizes), and the answers of the hardware and of the foreign
  functions.
\<close>

record platform =
  IPI_PSM_ISR_PMC_MASK :: u32
  PSM_GLOBAL_REG_ERR1_TRIG_PSM_B_NCR_MASK :: u32
  PSM_IOMODULE_IRQ_PENDING_IPI_SHIFT :: u32
  PSM_IOMODULE_IRQ_PENDING_IPI_MASK :: u32
  PSM_IOMODULE_IRQ_PENDING_PWR_UP_REQ_SHIFT :: u32
  PSM_IOMODULE_IRQ_PENDING_PWR_UP_REQ_MASK :: u32
  PSM_IOMODULE_IRQ_PENDING_PWR_DWN_REQ_SHIFT :: u32
  PSM_IOMODULE_IRQ_PENDING_PWR_DWN_REQ_MASK :: u32
  PSM_IOMODULE_IRQ_PENDING_WAKE_UP_REQ_SHIFT :: u32
  PSM_IOMODULE_IRQ_PENDING_WAKE_UP_REQ_MASK :: u32
  PSM_IOMODULE_IRQ_PENDING_PWR_CNT_REQ_SHIFT :: u32
  PSM_IOMODULE_IRQ_PENDING_PWR_CNT_REQ_MASK :: u32
  PSM_IOMODULE_IRQ_PENDING_SW_RST_REQ_SHIFT :: u32
  PSM_IOMODULE_IRQ_PENDING_SW_RST_REQ_MASK :: u32
  PSM_IOMODULE_IRQ_PENDING_GICP_INT_SHIFT :: u32
  PSM_IOMODULE_IRQ_PENDING_GICP_INT_MASK :: u32
  XPAR_XIPIPSU_0_DEVICE_ID_defined :: bool
  XPAR_IOMODULE_INTC_MAX_INTR_SIZE :: nat
  XIL_EXCEPTION_ID_FIRST :: nat
  XIL_EXCEPTION_ID_LAST :: nat
  reg_value :: "event list \<Rightarrow> reg \<Rightarrow> u32"
  ext_status :: "event list \<Rightarrow> ext_fn \<Rightarrow> XStatus"

record psm_state =
  trace :: "event list"

definition emit :: "event \<Rightarrow> psm_state \<Rightarrow> psm_state" where
  "emit e s = s\<lparr>trace := trace s @ [e]\<rparr>"

definition XPsmFw_Read32 :: "platform \<Rightarrow> reg \<Rightarrow> psm_state \<Rightarrow> u32 \<times> psm_state" where
  "XPsmFw_Read32 p r s = (let v = reg_value p (trace s) r in (v, emit (Read32 r v) s))"

definition XPsmFw_Write32 :: "reg \<Rightarrow> u32 \<Rightarrow> psm_state \<Rightarrow> psm_state" where
  "XPsmFw_Write32 r v s = emit (Write32 r v) s"

definition XPsmFw_Printf :: "debug_level \<Rightarrow> string \<Rightarrow> u32 list \<Rightarrow> psm_state \<Rightarrow> psm_state" where
  "XPsmFw_Printf l fmt args s = emit (Printf l fmt args) s"

definition ext_call :: "platform \<Rightarrow> ext_fn \<Rightarrow> psm_state \<Rightarrow> XStatus \<times> psm_state" where
  "ext_call p c s = (let r = ext_status p (trace s) c in (r, emit (Ext c r) s))"

definition ext_void :: "ext_proc \<Rightarrow> psm_state \<Rightarrow> psm_state" where
  "ext_void c s = emit (ExtVoid c) s"

text \<open>The carriage return and line feed that end every message of the file.\<close>

definition CRLF :: string where
  "CRLF = [char_of (13::nat), char_of (10::nat)]"

subsection \<open>The handlers of the interrupt sources\<close>

text \<open>
  The dispatchers of the interrupt sources are functions of other files
  (xpsmfw_ipi_manager, xpsmfw_power, xpsmfw_gic): each is a call that the trace records,
  with the status the platform answers.
\<close>

definition XPsmFw_DispatchIpiHandler :: "platform \<Rightarrow> u32 \<Rightarrow> psm_state \<Rightarrow> XStatus \<times> psm_state" where
  "XPsmFw_DispatchIpiHandler p SrcMask s = ext_call p (Call_XPsmFw_DispatchIpiHandler SrcMask) s"

definition XPsmFw_DispatchPwrUpHandler ::
  "platform \<Rightarrow> u32 \<Rightarrow> u32 \<Rightarrow> psm_state \<Rightarrow> XStatus \<times> psm_state" where
  "XPsmFw_DispatchPwrUpHandler p PwrUpStatus PwrUpIntMask s =
     ext_call p (Call_XPsmFw_DispatchPwrUpHandler PwrUpStatus PwrUpIntMask) s"

definition XPsmFw_DispatchPwrDwnHandler ::
  "platform \<Rightarrow> u32 \<Rightarrow> u32 \<Rightarrow> u32 \<Rightarrow> u32 \<Rightarrow> psm_state \<Rightarrow> XStatus \<times> psm_state" where
  "XPsmFw_DispatchPwrDwnHandler p PwrDwnStatus PwrDwnIntMask PwrUpStatus PwrUpIntMask s =
     ext_call p (Call_XPsmFw_DispatchPwrDwnHandler PwrDwnStatus PwrDwnIntMask
                   PwrUpStatus PwrUpIntMask) s"

definition XPsmFw_DispatchWakeupHandler ::
  "platform \<Rightarrow> u32 \<Rightarrow> u32 \<Rightarrow> psm_state \<Rightarrow> XStatus \<times> psm_state" where
  "XPsmFw_DispatchWakeupHandler p WakeupStatus WakeupIntMask s =
     ext_call p (Call_XPsmFw_DispatchWakeupHandler WakeupStatus WakeupIntMask) s"

definition XPsmFw_DispatchPwrCtlHandler ::
  "platform \<Rightarrow> u32 \<Rightarrow> u32 \<Rightarrow> psm_state \<Rightarrow> XStatus \<times> psm_state" where
  "XPsmFw_DispatchPwrCtlHandler p PwrCtlStatus PwrCtlIntMask s =
     ext_call p (Call_XPsmFw_DispatchPwrCtlHandler PwrCtlStatus PwrCtlIntMask) s"

definition XPsmFw_DispatchGicP2Handler ::
  "platform \<Rightarrow> u32 \<Rightarrow> u32 \<Rightarrow> psm_state \<Rightarrow> XStatus \<times> psm_state" where
  "XPsmFw_DispatchGicP2Handler p GicP2IrqStatus GicP2IrqMask s =
     ext_call p (Call_XPsmFw_DispatchGicP2Handler GicP2IrqStatus GicP2IrqMask) s"

definition XPsmFw_InterruptIpiHandler :: "platform \<Rightarrow> psm_state \<Rightarrow> psm_state" where
  "XPsmFw_InterruptIpiHandler p s0 =
    (let (Mask, s1) = XPsmFw_Read32 p IPI_PSM_ISR s0;
         Status = XST_FAILURE;
         (Status, s2) =
           (if IPI_PSM_ISR_PMC_MASK p \<noteq> (IPI_PSM_ISR_PMC_MASK p AND Mask)
            then (Status, XPsmFw_Printf DEBUG_ERROR (''Invalid IPI interrupt'' @ CRLF) [] s1)
            else if XPAR_XIPIPSU_0_DEVICE_ID_defined p
            then XPsmFw_DispatchIpiHandler p (IPI_PSM_ISR_PMC_MASK p) s1
            else (Status,
                  XPsmFw_Printf DEBUG_ERROR (''PSM IPI channel is not enabled'' @ CRLF) [] s1));
         s3 = XPsmFw_Write32 IPI_PSM_ISR Mask s2
     in if XST_SUCCESS \<noteq> Status
        then XPsmFw_Printf DEBUG_ERROR (''Error in handling IPI interrupt'' @ CRLF) [] s3
        else s3)"

definition XPsmfw_InterruptPwrUpHandler :: "platform \<Rightarrow> psm_state \<Rightarrow> psm_state" where
  "XPsmfw_InterruptPwrUpHandler p s0 =
    (let (PwrUpStatus, s1) = XPsmFw_Read32 p PSM_GLOBAL_REG_REQ_PWRUP_STATUS s0;
         (PwrUpIntMask, s2) = XPsmFw_Read32 p PSM_GLOBAL_REG_REQ_PWRUP_INT_MASK s1;
         (Status, s3) = XPsmFw_DispatchPwrUpHandler p PwrUpStatus PwrUpIntMask s2
     in if XST_SUCCESS \<noteq> Status
        then XPsmFw_Printf DEBUG_ERROR (''Error in handling Power up interrupt'' @ CRLF) [] s3
        else s3)"

definition XPsmfw_InterruptPwrDwnHandler :: "platform \<Rightarrow> psm_state \<Rightarrow> psm_state" where
  "XPsmfw_InterruptPwrDwnHandler p s0 =
    (let (PwrDwnStatus, s1) = XPsmFw_Read32 p PSM_GLOBAL_REG_REQ_PWRDWN_STATUS s0;
         (PwrDwnIntMask, s2) = XPsmFw_Read32 p PSM_GLOBAL_REG_REQ_PWRDWN_INT_MASK s1;
         (PwrUpStatus, s3) = XPsmFw_Read32 p PSM_GLOBAL_REG_REQ_PWRUP_STATUS s2;
         (PwrUpIntMask, s4) = XPsmFw_Read32 p PSM_GLOBAL_REG_REQ_PWRUP_INT_MASK s3;
         (Status, s5) =
           XPsmFw_DispatchPwrDwnHandler p PwrDwnStatus PwrDwnIntMask
             PwrUpStatus PwrUpIntMask s4
     in if XST_SUCCESS \<noteq> Status
        then XPsmFw_Printf DEBUG_ERROR (''Error in handling Power down interrupt'' @ CRLF) [] s5
        else s5)"

definition XPsmfw_InterruptWakeupHandler :: "platform \<Rightarrow> psm_state \<Rightarrow> psm_state" where
  "XPsmfw_InterruptWakeupHandler p s0 =
    (let (WakeupStatus, s1) = XPsmFw_Read32 p PSM_GLOBAL_REG_WAKEUP_IRQ_STATUS s0;
         (WakeupIntMask, s2) = XPsmFw_Read32 p PSM_GLOBAL_REG_WAKEUP_IRQ_MASK s1;
         (Status, s3) = XPsmFw_DispatchWakeupHandler p WakeupStatus WakeupIntMask s2
     in if XST_SUCCESS \<noteq> Status
        then XPsmFw_Printf DEBUG_ERROR (''Error in handling wakeup interrupt'' @ CRLF) [] s3
        else s3)"

definition XPsmfw_InterruptPwrCtlHandler :: "platform \<Rightarrow> psm_state \<Rightarrow> psm_state" where
  "XPsmfw_InterruptPwrCtlHandler p s0 =
    (let (PwrCtlStatus, s1) = XPsmFw_Read32 p PSM_GLOBAL_REG_PWR_CTRL_IRQ_STATUS s0;
         (PwrCtlIntMask, s2) = XPsmFw_Read32 p PSM_GLOBAL_REG_PWR_CTRL_IRQ_MASK s1;
         (Status, s3) = XPsmFw_DispatchPwrCtlHandler p PwrCtlStatus PwrCtlIntMask s2
     in if XST_SUCCESS \<noteq> Status
        then XPsmFw_Printf DEBUG_ERROR
               (''Error in handling power control interrupt'' @ CRLF) [] s3
        else s3)"

definition XPsmfw_InterruptGicP2Handler :: "platform \<Rightarrow> psm_state \<Rightarrow> psm_state" where
  "XPsmfw_InterruptGicP2Handler p s0 =
    (let (GicP2IrqStatus, s1) = XPsmFw_Read32 p PSM_GLOBAL_GICP2_IRQ_STATUS s0;
         (GicP2IrqMask, s2) = XPsmFw_Read32 p PSM_GLOBAL_GICP2_IRQ_MASK s1;
         (Status, s3) = XPsmFw_DispatchGicP2Handler p GicP2IrqStatus GicP2IrqMask s2
     in if XST_SUCCESS \<noteq> Status
        then XPsmFw_Printf DEBUG_ERROR (''Error in handling GIC interrupt'' @ CRLF) [] s3
        else s3)"

subsection \<open>The top-level interrupt table and the dispatcher\<close>

record HandlerTable =
  Shift :: u32
  Mask :: u32
  Handler :: "(psm_state \<Rightarrow> psm_state) option"

definition g_TopLevelInterruptTable :: "platform \<Rightarrow> HandlerTable list" where
  "g_TopLevelInterruptTable p =
    [ \<lparr>Shift = PSM_IOMODULE_IRQ_PENDING_IPI_SHIFT p,
       Mask = PSM_IOMODULE_IRQ_PENDING_IPI_MASK p,
       Handler = Some (XPsmFw_InterruptIpiHandler p)\<rparr>,
      \<lparr>Shift = PSM_IOMODULE_IRQ_PENDING_PWR_UP_REQ_SHIFT p,
       Mask = PSM_IOMODULE_IRQ_PENDING_PWR_UP_REQ_MASK p,
       Handler = Some (XPsmfw_InterruptPwrUpHandler p)\<rparr>,
      \<lparr>Shift = PSM_IOMODULE_IRQ_PENDING_PWR_DWN_REQ_SHIFT p,
       Mask = PSM_IOMODULE_IRQ_PENDING_PWR_DWN_REQ_MASK p,
       Handler = Some (XPsmfw_InterruptPwrDwnHandler p)\<rparr>,
      \<lparr>Shift = PSM_IOMODULE_IRQ_PENDING_WAKE_UP_REQ_SHIFT p,
       Mask = PSM_IOMODULE_IRQ_PENDING_WAKE_UP_REQ_MASK p,
       Handler = Some (XPsmfw_InterruptWakeupHandler p)\<rparr>,
      \<lparr>Shift = PSM_IOMODULE_IRQ_PENDING_PWR_CNT_REQ_SHIFT p,
       Mask = PSM_IOMODULE_IRQ_PENDING_PWR_CNT_REQ_MASK p,
       Handler = Some (XPsmfw_InterruptPwrCtlHandler p)\<rparr>,
      \<lparr>Shift = PSM_IOMODULE_IRQ_PENDING_SW_RST_REQ_SHIFT p,
       Mask = PSM_IOMODULE_IRQ_PENDING_SW_RST_REQ_MASK p,
       Handler = None\<rparr>,
      \<lparr>Shift = PSM_IOMODULE_IRQ_PENDING_GICP_INT_SHIFT p,
       Mask = PSM_IOMODULE_IRQ_PENDING_GICP_INT_MASK p,
       Handler = Some (XPsmfw_InterruptGicP2Handler p)\<rparr> ]"

definition ARRAYSIZE :: "'a list \<Rightarrow> nat" where
  "ARRAYSIZE a = length a"

text \<open>
  The \<open>for\<close> loop of \<open>XPsmFw_IntrHandler\<close>, from the index \<open>l_index\<close> on. The table
  is the global \<open>g_TopLevelInterruptTable\<close>; the loop takes it as an argument. The index
  is a \<open>u32\<close> in C and a natural number here: it never exceeds the size of the table.
\<close>

function IntrHandler_loop ::
  "HandlerTable list \<Rightarrow> u32 \<Rightarrow> nat \<Rightarrow> psm_state \<Rightarrow> psm_state" where
  "IntrHandler_loop tbl l_IrqReg l_index s =
    (if l_index < ARRAYSIZE tbl
     then IntrHandler_loop tbl l_IrqReg (l_index + 1)
            (if (l_IrqReg AND Mask (tbl ! l_index)) = Mask (tbl ! l_index)
             then XPsmFw_Write32 PSM_IOMODULE_IRQ_ACK (Mask (tbl ! l_index))
                    (case Handler (tbl ! l_index) of
                       None \<Rightarrow> s
                     | Some h \<Rightarrow> h s)
             else s)
     else s)"
  by pat_completeness auto
termination
  by (relation "measure (\<lambda>(tbl, l_IrqReg, l_index, s). ARRAYSIZE tbl - l_index)") auto

definition XPsmFw_IntrHandler :: "platform \<Rightarrow> u32 \<Rightarrow> psm_state \<Rightarrow> psm_state" where
  "XPsmFw_IntrHandler p IntrNumber s0 =
    (let s1 = XPsmFw_Printf DEBUG_DETAILED (''Interrupt number = 0x%x'' @ CRLF) [IntrNumber] s0;
         (l_IrqReg, s2) = XPsmFw_Read32 p PSM_IOMODULE_IRQ_PENDING s1
     in IntrHandler_loop (g_TopLevelInterruptTable p) l_IrqReg 0 s2)"

subsection \<open>Overriding and restoring a handler at run time (PSM_ENABLE_STL)\<close>

text \<open>
  The XIOModule driver is another file. The three functions of it that the file calls
  here act on the single instance \<open>IOModule\<close>; only \<open>XIOModule_Connect\<close> returns a status.
\<close>

definition XIOModule_Disable :: "u8 \<Rightarrow> psm_state \<Rightarrow> psm_state" where
  "XIOModule_Disable IntrId s = ext_void (Call_XIOModule_Disable IntrId) s"

definition XIOModule_Enable :: "u8 \<Rightarrow> psm_state \<Rightarrow> psm_state" where
  "XIOModule_Enable IntrId s = ext_void (Call_XIOModule_Enable IntrId) s"

definition XIOModule_Connect ::
  "platform \<Rightarrow> u8 \<Rightarrow> fn_ptr option \<Rightarrow> u32 option \<Rightarrow> psm_state \<Rightarrow> XStatus \<times> psm_state" where
  "XIOModule_Connect p IntrId Hdlr CallBackRef s =
     ext_call p (Call_XIOModule_Connect IntrId Hdlr CallBackRef) s"

definition XPsmFw_RegisterStlInterruptHandler ::
  "platform \<Rightarrow> u8 \<Rightarrow> fn_ptr option \<Rightarrow> psm_state \<Rightarrow> XStatus \<times> psm_state" where
  "XPsmFw_RegisterStlInterruptHandler p InteruptNumber StlInterruptHandler s0 =
    (if None = StlInterruptHandler \<or>
        XPAR_IOMODULE_INTC_MAX_INTR_SIZE p \<le> unat InteruptNumber
     then (XST_INVALID_PARAM, s0)
     else
       let s1 = XIOModule_Disable InteruptNumber s0;
           (Status, s2) = XIOModule_Connect p InteruptNumber StlInterruptHandler None s1
       in if XST_SUCCESS \<noteq> Status
          then (Status, s2)
          else (Status, XIOModule_Enable InteruptNumber s2))"

definition XPsmFw_RestoreInterruptHandler ::
  "platform \<Rightarrow> u8 \<Rightarrow> psm_state \<Rightarrow> XStatus \<times> psm_state" where
  "XPsmFw_RestoreInterruptHandler p InteruptNumber s0 =
    (if XPAR_IOMODULE_INTC_MAX_INTR_SIZE p \<le> unat InteruptNumber
     then (XST_INVALID_PARAM, s0)
     else
       let s1 = XIOModule_Disable InteruptNumber s0;
           (Status, s2) = XIOModule_Connect p InteruptNumber (Some Fn_XPsmFw_IntrHandler) None s1
       in if XST_SUCCESS \<noteq> Status
          then (Status, s2)
          else (Status, XIOModule_Enable InteruptNumber s2))"

subsection \<open>The exception path\<close>

text \<open>
  \<open>XPsmfw_ExceptionHandler\<close> ends in \<open>while (TRUE) { ; }\<close>. The model runs the loop on
  fuel: \<open>Returned s\<close> is a return in state \<open>s\<close>, and \<open>Running s\<close> says that the fuel is
  used up with the function still executing, having reached state \<open>s\<close>.
\<close>

datatype 'a outcome = Returned 'a | Running 'a

definition TRUE :: bool where
  "TRUE = True"

fun ExceptionHandler_loop :: "nat \<Rightarrow> psm_state \<Rightarrow> psm_state outcome" where
  "ExceptionHandler_loop 0 s = Running s"
| "ExceptionHandler_loop (Suc fuel) s =
     (if TRUE then ExceptionHandler_loop fuel s else Returned s)"

definition XPsmfw_ExceptionHandler ::
  "platform \<Rightarrow> nat \<Rightarrow> u32 option \<Rightarrow> psm_state \<Rightarrow> psm_state outcome" where
  "XPsmfw_ExceptionHandler p fuel Data s0 =
    (let s1 = XPsmFw_Write32 PSM_GLOBAL_REG_ERR1_TRIG
                (PSM_GLOBAL_REG_ERR1_TRIG_PSM_B_NCR_MASK p) s0
     in ExceptionHandler_loop fuel s1)"

definition Xil_ExceptionRegisterHandler ::
  "nat \<Rightarrow> fn_ptr option \<Rightarrow> u32 option \<Rightarrow> psm_state \<Rightarrow> psm_state" where
  "Xil_ExceptionRegisterHandler Exception_id Hdlr Data s =
     ext_void (Call_Xil_ExceptionRegisterHandler Exception_id Hdlr Data) s"

text \<open>
  The loop of \<open>XPsmfw_ExceptionInit\<close>. \<open>Index\<close> is a \<open>u16\<close> and wraps around, the bound
  is an integer constant: with a bound of 65535 or more the loop does not end, which is the
  value \<open>None\<close>.
\<close>

partial_function (option) ExceptionInit_loop ::
  "platform \<Rightarrow> u16 \<Rightarrow> psm_state \<Rightarrow> psm_state option" where
  "ExceptionInit_loop p Index s =
    (if unat Index \<le> XIL_EXCEPTION_ID_LAST p
     then ExceptionInit_loop p (Index + 1)
            (Xil_ExceptionRegisterHandler (unat Index) (Some Fn_XPsmfw_ExceptionHandler) None s)
     else Some s)"

definition XPsmfw_ExceptionInit :: "platform \<Rightarrow> psm_state \<Rightarrow> psm_state option" where
  "XPsmfw_ExceptionInit p s = ExceptionInit_loop p (of_nat (XIL_EXCEPTION_ID_FIRST p)) s"

subsection \<open>What a trace shows\<close>

text \<open>The events that \<open>s'\<close> has and \<open>s\<close> had not yet.\<close>

definition events_since :: "psm_state \<Rightarrow> psm_state \<Rightarrow> event list" where
  "events_since s s' = drop (length (trace s)) (trace s')"

text \<open>The values written to a register, in the order of the writes.\<close>

definition writes_to :: "reg \<Rightarrow> event list \<Rightarrow> u32 list" where
  "writes_to r es =
     concat (map (\<lambda>e. case e of Write32 r' v \<Rightarrow> (if r' = r then [v] else []) | _ \<Rightarrow> []) es)"

text \<open>The arguments of the calls of \<open>XPsmFw_DispatchIpiHandler\<close>, in the order of the calls.\<close>

definition ipi_dispatches :: "event list \<Rightarrow> u32 list" where
  "ipi_dispatches es =
     concat (map (\<lambda>e. case e of Ext (Call_XPsmFw_DispatchIpiHandler m) st \<Rightarrow> [m] | _ \<Rightarrow> []) es)"

text \<open>
  The handler bound to each interrupt number, as far as a trace shows it: the handler and
  callback reference of the last call of \<open>XIOModule_Connect\<close> for that number that
  returned \<open>XST_SUCCESS\<close>. The driver itself is not among the sources; no other call of
  this file hands it a handler.
\<close>

definition connect_effect ::
  "(u8 \<Rightarrow> (fn_ptr option \<times> u32 option) option) \<Rightarrow> event
     \<Rightarrow> (u8 \<Rightarrow> (fn_ptr option \<times> u32 option) option)" where
  "connect_effect m e =
     (case e of
        Ext c st \<Rightarrow>
          (case c of
             Call_XIOModule_Connect i h cb \<Rightarrow> (if st = XST_SUCCESS then m(i \<mapsto> (h, cb)) else m)
           | _ \<Rightarrow> m)
      | _ \<Rightarrow> m)"

definition bindings :: "event list \<Rightarrow> u8 \<Rightarrow> (fn_ptr option \<times> u32 option) option" where
  "bindings es = foldl connect_effect Map.empty es"

text \<open>
  The dispatch as the specification words it, entry by entry: an entry whose mask is
  contained in the pending mask has its handler run, if it has one, and then its mask
  written to the acknowledge register; any other entry contributes nothing.
\<close>

definition mask_contained :: "u32 \<Rightarrow> HandlerTable \<Rightarrow> bool" where
  "mask_contained pending e = ((pending AND Mask e) = Mask e)"

definition entry_events :: "u32 \<Rightarrow> HandlerTable \<Rightarrow> psm_state \<Rightarrow> event list" where
  "entry_events pending e s =
    (if mask_contained pending e
     then (case Handler e of None \<Rightarrow> [] | Some h \<Rightarrow> events_since s (h s))
          @ [Write32 PSM_IOMODULE_IRQ_ACK (Mask e)]
     else [])"

fun dispatch_events :: "u32 \<Rightarrow> HandlerTable list \<Rightarrow> psm_state \<Rightarrow> event list" where
  "dispatch_events pending [] s = []"
| "dispatch_events pending (e # es) s =
     entry_events pending e s
     @ dispatch_events pending es (s\<lparr>trace := trace s @ entry_events pending e s\<rparr>)"

text \<open>
  The body of the loop of \<open>XPsmFw_IntrHandler\<close> for one entry, and two notions for the
  proofs: a handler is quiet when it only adds events to the trace and none of them is a
  write to the acknowledge register; a table is quiet when all its handlers are.
\<close>

definition serve_entry :: "u32 \<Rightarrow> HandlerTable \<Rightarrow> psm_state \<Rightarrow> psm_state" where
  "serve_entry pending e s =
     (if (pending AND Mask e) = Mask e
      then XPsmFw_Write32 PSM_IOMODULE_IRQ_ACK (Mask e)
             (case Handler e of None \<Rightarrow> s | Some h \<Rightarrow> h s)
      else s)"

definition quiet :: "(psm_state \<Rightarrow> psm_state) \<Rightarrow> bool" where
  "quiet h = (\<forall>s. take (length (trace s)) (trace (h s)) = trace s \<and>
                  writes_to PSM_IOMODULE_IRQ_ACK (events_since s (h s)) = [])"

definition quiet_table :: "HandlerTable list \<Rightarrow> bool" where
  "quiet_table tbl = (\<forall>e \<in> set tbl. \<forall>h. Handler e = Some h \<longrightarrow> quiet h)"

subsection \<open>A platform to run the model on\<close>

text \<open>
  An example platform, for evaluating the functions on concrete inputs. Its values are
  chosen for the examples (one mask bit per source, in table order); they are not read off
  the hardware headers. Its pending register shows the IPI, power-up and software-reset
  sources; its power-up dispatcher fails and every other foreign function succeeds.
\<close>

definition example_platform :: platform where
  "example_platform =
    \<lparr> IPI_PSM_ISR_PMC_MASK = 2,
      PSM_GLOBAL_REG_ERR1_TRIG_PSM_B_NCR_MASK = 8,
      PSM_IOMODULE_IRQ_PENDING_IPI_SHIFT = 0,
      PSM_IOMODULE_IRQ_PENDING_IPI_MASK = 1,
      PSM_IOMODULE_IRQ_PENDING_PWR_UP_REQ_SHIFT = 1,
      PSM_IOMODULE_IRQ_PENDING_PWR_UP_REQ_MASK = 2,
      PSM_IOMODULE_IRQ_PENDING_PWR_DWN_REQ_SHIFT = 2,
      PSM_IOMODULE_IRQ_PENDING_PWR_DWN_REQ_MASK = 4,
      PSM_IOMODULE_IRQ_PENDING_WAKE_UP_REQ_SHIFT = 3,
      PSM_IOMODULE_IRQ_PENDING_WAKE_UP_REQ_MASK = 8,
      PSM_IOMODULE_IRQ_PENDING_PWR_CNT_REQ_SHIFT = 4,
      PSM_IOMODULE_IRQ_PENDING_PWR_CNT_REQ_MASK = 16,
      PSM_IOMODULE_IRQ_PENDING_SW_RST_REQ_SHIFT = 5,
      PSM_IOMODULE_IRQ_PENDING_SW_RST_REQ_MASK = 32,
      PSM_IOMODULE_IRQ_PENDING_GICP_INT_SHIFT = 6,
      PSM_IOMODULE_IRQ_PENDING_GICP_INT_MASK = 64,
      XPAR_XIPIPSU_0_DEVICE_ID_defined = True,
      XPAR_IOMODULE_INTC_MAX_INTR_SIZE = 32,
      XIL_EXCEPTION_ID_FIRST = 0,
      XIL_EXCEPTION_ID_LAST = 2,
      reg_value = (\<lambda>h r. if r = PSM_IOMODULE_IRQ_PENDING then 35
                         else if r = IPI_PSM_ISR then 2 else 0),
      ext_status = (\<lambda>h c. case c of Call_XPsmFw_DispatchPwrUpHandler a b \<Rightarrow> XST_FAILURE
                                   | _ \<Rightarrow> XST_SUCCESS) \<rparr>"

text \<open>The same platform with an IPI status register that does not show the PMC bit.\<close>

definition foreign_ipi_platform :: platform where
  "foreign_ipi_platform = example_platform\<lparr>reg_value := (\<lambda>h r. 4)\<rparr>"

definition s_init :: psm_state where
  "s_init = \<lparr>trace = []\<rparr>"

section \<open>PLM generic module: catalogue, keyhole transfer, readback (xplmi_generic.h)\<close>

text \<open>
  The header declares the data of the three services and the entry points
  \<open>XPlmi_SetProcList\<close> and \<open>XPlmi_ExecuteProc\<close>; the file with their bodies
  (xplmi_generic.c) is not among the sources. The records and the capacity below are the
  header's. Every operation is modelled from the specification, and says so.
\<close>

text \<open>
  Modelled from the spec: the error conditions of its section 7. Of these conditions only
  the overflow of a readback has a status code in the header
  (\<open>XPLMI_ERR_READBACK_BUFFER_OVERFLOW\<close>, 0x13); the code that returns the others is
  missing.
\<close>

datatype plmi_error =
    NotFound
  | CapacityExceeded
  | InvalidParameter
  | Overflow
  | ConcurrentOperation
  | UnrecoverableFault

subsection \<open>Readback progress\<close>

record XPlmi_ReadBackProps =
  DestAddr :: u64
  MaxSize :: u32
  ProcessedLen :: u32

text \<open>
  Modelled from the spec: the function that records readback progress is in xplmi_generic.c,
  which is missing. The specification: \<open>recordProgress(delta)\<close> adds to
  \<open>processedLength\<close>; if the result would exceed \<open>maxSize\<close>, the call fails with an
  overflow condition and \<open>processedLength\<close> is left at its last valid value. The sum is
  the sum of the two numbers, not the wrapped 32-bit sum. The call returns the error, if
  any, and the state it leaves.
\<close>

definition recordProgress ::
  "u32 \<Rightarrow> XPlmi_ReadBackProps \<Rightarrow> plmi_error option \<times> XPlmi_ReadBackProps" where
  "recordProgress delta rb =
    (if unat (MaxSize rb) < unat (ProcessedLen rb) + unat delta
     then (Some Overflow, rb)
     else (None, rb\<lparr>ProcessedLen := ProcessedLen rb + delta\<rparr>))"

text \<open>The tracker of the specification's scenario: a maximum size of 100, nothing processed.\<close>

definition example_readback :: XPlmi_ReadBackProps where
  "example_readback = \<lparr>DestAddr = 0xFFFF0000, MaxSize = 100, ProcessedLen = 0\<rparr>"

subsection \<open>Keyhole transfer\<close>

text \<open>
  Modelled from the spec: the keyhole transfer functions are in xplmi_generic.c, which is
  missing. The state has the fields of the specification's \<open>KeyholeTransferState\<close>, with
  the widths of the header's \<open>XPlmi_KeyHoleXfrParams\<close> (64-bit addresses, 32-bit lengths),
  and the per-transfer flag that says whether the destination cursor advances. The move
  function acts on a world \<open>'w\<close> that the model does not look into.
\<close>

record 'w KeyholeTransferState =
  sourceAddress :: u64
  destinationAddress :: u64
  totalLength :: u32
  windowSize :: u32
  bytesTransferred :: u32
  destinationAdvances :: bool
  transferFunction :: "u64 \<Rightarrow> u64 \<Rightarrow> u32 \<Rightarrow> 'w \<Rightarrow> 'w"

text \<open>
  Modelled from the spec: \<open>beginTransfer\<close> (missing with xplmi_generic.c) validates that
  \<open>windowSize > 0\<close>, \<open>totalLength > 0\<close> and that the destination alignment constraints,
  which the caller supplies, are respected by the chosen window size; otherwise it fails
  with an invalid-parameter condition.
\<close>

definition beginTransfer ::
  "u64 \<Rightarrow> u64 \<Rightarrow> u32 \<Rightarrow> u32 \<Rightarrow> (u64 \<Rightarrow> u64 \<Rightarrow> u32 \<Rightarrow> 'w \<Rightarrow> 'w) \<Rightarrow> bool
     \<Rightarrow> (u64 \<Rightarrow> u32 \<Rightarrow> bool) \<Rightarrow> plmi_error + 'w KeyholeTransferState" where
  "beginTransfer source destination len window moveFn advances aligned =
    (if 0 < window \<and> 0 < len \<and> aligned destination window
     then Inr \<lparr>sourceAddress = source, destinationAddress = destination,
               totalLength = len, windowSize = window, bytesTransferred = 0,
               destinationAdvances = advances, transferFunction = moveFn\<rparr>
     else Inl InvalidParameter)"

text \<open>
  Modelled from the spec: what a call of \<open>step\<close> reports (the code with it is missing):
  the length of the chunk it moved, the updated cumulative length, and the completion flag.
\<close>

record step_report =
  chunkLength :: u32
  cumulativeLength :: u32
  completionFlag :: bool

text \<open>
  Modelled from the spec: \<open>step\<close> (missing with xplmi_generic.c) moves
  \<open>min(windowSize, totalLength - bytesTransferred)\<close> bytes using
  \<open>moveFn(currentSource, currentDestination, chunkLength)\<close>, advances
  \<open>bytesTransferred\<close> and the source cursor by \<open>chunkLength\<close>, advances the destination
  cursor when the transfer is configured so, reports the updated cumulative length, and
  returns a completion flag when \<open>bytesTransferred = totalLength\<close>.
\<close>

definition step ::
  "'w KeyholeTransferState \<Rightarrow> 'w \<Rightarrow> step_report \<times> 'w KeyholeTransferState \<times> 'w" where
  "step st w =
    (let chunk = min (windowSize st) (totalLength st - bytesTransferred st);
         w' = transferFunction st (sourceAddress st) (destinationAddress st) chunk w;
         st' = st\<lparr>bytesTransferred := bytesTransferred st + chunk,
                  sourceAddress := sourceAddress st + ucast chunk,
                  destinationAddress :=
                    (if destinationAdvances st then destinationAddress st + ucast chunk
                     else destinationAddress st)\<rparr>
     in (\<lparr>chunkLength = chunk, cumulativeLength = bytesTransferred st',
          completionFlag = (bytesTransferred st' = totalLength st')\<rparr>, st', w'))"

text \<open>
  Modelled from the spec: a transfer is realised as repeated \<open>step\<close> calls driven by the
  main loop (section 5), which is not among the sources. \<open>drive\<close> calls \<open>step\<close> until
  a step reports completion and returns the reports of all its steps; it runs on fuel, and
  \<open>None\<close> says that the fuel ran out before the transfer completed.
\<close>

fun drive ::
  "nat \<Rightarrow> 'w KeyholeTransferState \<Rightarrow> 'w
     \<Rightarrow> (step_report list \<times> 'w KeyholeTransferState \<times> 'w) option" where
  "drive 0 st w = None"
| "drive (Suc fuel) st w =
    (let (r, st', w') = step st w
     in if completionFlag r then Some ([r], st', w')
        else (case drive fuel st' w' of
                None \<Rightarrow> None
              | Some (rs, st'', w'') \<Rightarrow> Some (r # rs, st'', w'')))"

text \<open>The cumulative sums of a list of chunk lengths, starting from \<open>a\<close>.\<close>

fun running_total :: "nat \<Rightarrow> nat list \<Rightarrow> nat list" where
  "running_total a [] = []"
| "running_total a (x # xs) = (a + x) # running_total (a + x) xs"

text \<open>
  The transfer of the specification's scenario: 1000 bytes through a window of 256, to a
  keyhole whose address stays. Its world is the list of the moves made so far.
\<close>

definition log_move :: "u64 \<Rightarrow> u64 \<Rightarrow> u32 \<Rightarrow> (u64 \<times> u64 \<times> u32) list \<Rightarrow> (u64 \<times> u64 \<times> u32) list" where
  "log_move src dst n w = w @ [(src, dst, n)]"

definition example_transfer :: "(u64 \<times> u64 \<times> u32) list KeyholeTransferState" where
  "example_transfer =
    \<lparr>sourceAddress = 0x1000, destinationAddress = 0xF0000000,
     totalLength = 1000, windowSize = 256, bytesTransferred = 0,
     destinationAdvances = False, transferFunction = log_move\<rparr>"

subsection \<open>Procedure catalogue\<close>

definition XPLMI_MAX_PROCS_SUPPORTED :: nat where
  "XPLMI_MAX_PROCS_SUPPORTED = 10"

text \<open>The header's \<open>XPlmi_ProcData\<close>; its field \<open>Id\<close> is \<open>Id'\<close> here.\<close>

record XPlmi_ProcData =
  Id' :: u32
  Addr :: u32

text \<open>
  Modelled from the spec: the parsing of a region is part of the missing
  \<open>XPlmi_SetProcList\<close>. The \<open>i\<close>-th pair of a region is two 32-bit words, the id and
  then the address, as in \<open>XPlmi_ProcData\<close>, read through the register access shim
  \<open>readWord\<close>.
\<close>

definition region_entry :: "(u32 \<Rightarrow> u32) \<Rightarrow> u32 \<Rightarrow> nat \<Rightarrow> XPlmi_ProcData" where
  "region_entry readWord Address i =
     \<lparr>Id' = readWord (Address + of_nat (8 * i)),
      Addr = readWord (Address + of_nat (8 * i + 4))\<rparr>"

text \<open>
  Modelled from the spec: the body of \<open>XPlmi_SetProcList\<close> is in xplmi_generic.c, which is
  missing; the header gives its arguments. The specification:
  \<open>setCatalog(regionAddress, regionSize)\<close> parses a contiguous block of \<open>{id, address}\<close>
  pairs, replacing any prior catalog, and fails if the count implied by \<open>regionSize\<close>
  exceeds the fixed capacity; such a registration fails wholesale (no partial catalog).
  The count implied by a size is the number of whole pairs of eight bytes in it (section 6
  of the specification also speaks of a header with an entry count; the model follows
  section 4.2 and the two arguments of the header's prototype). The call returns the error,
  if any, and the catalogue it leaves.
\<close>

definition XPlmi_SetProcList ::
  "(u32 \<Rightarrow> u32) \<Rightarrow> u32 \<Rightarrow> u16 \<Rightarrow> XPlmi_ProcData list
     \<Rightarrow> plmi_error option \<times> XPlmi_ProcData list" where
  "XPlmi_SetProcList readWord Address Size catalog =
    (let count = unat Size div 8
     in if XPLMI_MAX_PROCS_SUPPORTED < count
        then (Some CapacityExceeded, catalog)
        else (None, map (region_entry readWord Address) [0 ..< count]))"

text \<open>
  Modelled from the spec: the lookup of \<open>XPlmi_ExecuteProc\<close> (xplmi_generic.c, missing) is
  a scan over the catalogue in which the first match wins.
\<close>

fun lookup_proc :: "u32 \<Rightarrow> XPlmi_ProcData list \<Rightarrow> u32 option" where
  "lookup_proc ProcId [] = None"
| "lookup_proc ProcId (e # es) =
     (if Id' e = ProcId then Some (Addr e) else lookup_proc ProcId es)"

text \<open>
  Modelled from the spec: the body of \<open>XPlmi_ExecuteProc\<close> is in xplmi_generic.c, which is
  missing. The specification: \<open>execute(procId)\<close> looks up the id; if absent, fails with a
  not-found condition; if present, transfers control to a runner that interprets the stored
  command stream starting at the recorded address. The runner \<open>run\<close> is the generic
  command interpreter, a collaborator; \<open>Inr\<close> carries what it returns.
\<close>

definition XPlmi_ExecuteProc ::
  "(u32 \<Rightarrow> 'r) \<Rightarrow> u32 \<Rightarrow> XPlmi_ProcData list \<Rightarrow> plmi_error + 'r" where
  "XPlmi_ExecuteProc run ProcId catalog =
    (case lookup_proc ProcId catalog of
       None \<Rightarrow> Inl NotFound
     | Some a \<Rightarrow> Inr (run a))"

text \<open>
  A sequence of bulk loads, each with the memory it reads, applied in order; and the loads
  that fail. Whether a load fails depends on its size only, not on the catalogue it meets.
\<close>

fun load_all ::
  "((u32 \<Rightarrow> u32) \<times> u32 \<times> u16) list \<Rightarrow> XPlmi_ProcData list \<Rightarrow> XPlmi_ProcData list" where
  "load_all [] catalog = catalog"
| "load_all ((readWord, Address, Size) # loads) catalog =
     load_all loads (snd (XPlmi_SetProcList readWord Address Size catalog))"

definition load_fails :: "(u32 \<Rightarrow> u32) \<times> u32 \<times> u16 \<Rightarrow> bool" where
  "load_fails l = (case l of (readWord, Address, Size) \<Rightarrow>
                    fst (XPlmi_SetProcList readWord Address Size []) \<noteq> None)"

text \<open>
  The region of the specification's scenario, at address \<open>0x2000\<close>: the pair \<open>i\<close> holds
  the id \<open>i\<close> and the address \<open>0x1000 + 0x40 * i\<close>.
\<close>

definition example_region :: "u32 \<Rightarrow> u32" where
  "example_region a =
     (let off = unat (a - 0x2000)
      in if off mod 8 = 0 then of_nat (off div 8) else 0x1000 + 0x40 * of_nat (off div 8))"

text \<open>The catalogue that the region holds.\<close>

definition example_catalog :: "XPlmi_ProcData list" where
  "example_catalog =
     [\<lparr>Id' = 0, Addr = 0x1000\<rparr>, \<lparr>Id' = 1, Addr = 0x1040\<rparr>, \<lparr>Id' = 2, Addr = 0x1080\<rparr>,
      \<lparr>Id' = 3, Addr = 0x10C0\<rparr>, \<lparr>Id' = 4, Addr = 0x1100\<rparr>, \<lparr>Id' = 5, Addr = 0x1140\<rparr>,
      \<lparr>Id' = 6, Addr = 0x1180\<rparr>, \<lparr>Id' = 7, Addr = 0x11C0\<rparr>, \<lparr>Id' = 8, Addr = 0x1200\<rparr>,
      \<lparr>Id' = 9, Addr = 0x1240\<rparr>]"

section \<open>Properties of the interrupt routing\<close>

subsection \<open>Traces\<close>

lemma writes_to_append: "writes_to r (xs @ ys) = writes_to r xs @ writes_to r ys"
  by (simp add: writes_to_def)

lemma writes_to_Nil: "writes_to r [] = []"
  by (simp add: writes_to_def)

lemma writes_to_Cons:
  "writes_to r (e # es) =
     (case e of Write32 r' v \<Rightarrow> (if r' = r then [v] else []) | _ \<Rightarrow> []) @ writes_to r es"
  by (simp add: writes_to_def)

lemma psm_state_eq: "(s :: psm_state) = s' \<longleftrightarrow> trace s = trace s'"
  by (cases s, cases s') simp

lemmas prim_defs = XPsmFw_Read32_def XPsmFw_Write32_def XPsmFw_Printf_def
  XPsmFw_DispatchIpiHandler_def XPsmFw_DispatchPwrUpHandler_def XPsmFw_DispatchPwrDwnHandler_def
  XPsmFw_DispatchWakeupHandler_def XPsmFw_DispatchPwrCtlHandler_def
  XPsmFw_DispatchGicP2Handler_def ext_call_def ext_void_def emit_def Let_def

subsection \<open>The handlers of the table only add events, and leave the acknowledge register alone\<close>

lemma quiet_ipi: "quiet (XPsmFw_InterruptIpiHandler p)"
  unfolding quiet_def
  by (simp add: XPsmFw_InterruptIpiHandler_def prim_defs events_since_def writes_to_Cons
        writes_to_Nil split: prod.splits)

lemma quiet_pwrup: "quiet (XPsmfw_InterruptPwrUpHandler p)"
  unfolding quiet_def
  by (simp add: XPsmfw_InterruptPwrUpHandler_def prim_defs events_since_def writes_to_Cons
        writes_to_Nil split: prod.splits)

lemma quiet_pwrdwn: "quiet (XPsmfw_InterruptPwrDwnHandler p)"
  unfolding quiet_def
  by (simp add: XPsmfw_InterruptPwrDwnHandler_def prim_defs events_since_def writes_to_Cons
        writes_to_Nil split: prod.splits)

lemma quiet_wakeup: "quiet (XPsmfw_InterruptWakeupHandler p)"
  unfolding quiet_def
  by (simp add: XPsmfw_InterruptWakeupHandler_def prim_defs events_since_def writes_to_Cons
        writes_to_Nil split: prod.splits)

lemma quiet_pwrctl: "quiet (XPsmfw_InterruptPwrCtlHandler p)"
  unfolding quiet_def
  by (simp add: XPsmfw_InterruptPwrCtlHandler_def prim_defs events_since_def writes_to_Cons
        writes_to_Nil split: prod.splits)

lemma quiet_gicp2: "quiet (XPsmfw_InterruptGicP2Handler p)"
  unfolding quiet_def
  by (simp add: XPsmfw_InterruptGicP2Handler_def prim_defs events_since_def writes_to_Cons
        writes_to_Nil split: prod.splits)

lemma quiet_trace: "quiet h \<Longrightarrow> trace (h s) = trace s @ events_since s (h s)"
  unfolding quiet_def events_since_def
  by (metis append_take_drop_id)

lemma quiet_top: "quiet_table (g_TopLevelInterruptTable p)"
  by (simp add: quiet_table_def g_TopLevelInterruptTable_def quiet_ipi quiet_pwrup quiet_pwrdwn
      quiet_wakeup quiet_pwrctl quiet_gicp2)

lemma quiet_table_take: "quiet_table tbl \<Longrightarrow> quiet_table (take i tbl)"
  by (auto simp add: quiet_table_def dest: in_set_takeD)

lemma quiet_table_drop: "quiet_table tbl \<Longrightarrow> quiet_table (drop i tbl)"
  by (auto simp add: quiet_table_def dest: in_set_dropD)

subsection \<open>The loop over the indices is a pass over the table, entry by entry\<close>

declare IntrHandler_loop.simps [simp del]

lemma loop_fold:
  "IntrHandler_loop tbl pending i s = foldl (\<lambda>s e. serve_entry pending e s) s (drop i tbl)"
proof (induction tbl pending i s rule: IntrHandler_loop.induct)
  case (1 tbl l_IrqReg l_index s)
  show ?case
  proof (cases "l_index < length tbl")
    case True
    then have d: "drop l_index tbl = tbl ! l_index # drop (Suc l_index) tbl"
      by (simp add: Cons_nth_drop_Suc)
    from True have lt: "l_index < ARRAYSIZE tbl" by (simp add: ARRAYSIZE_def)
    show ?thesis
      using "1.IH"[OF lt]
      by (subst IntrHandler_loop.simps) (simp add: lt d serve_entry_def)
  next
    case False
    then show ?thesis
      by (subst IntrHandler_loop.simps) (simp add: ARRAYSIZE_def)
  qed
qed

lemma loop_take_drop:
  "IntrHandler_loop tbl pending 0 s =
     IntrHandler_loop tbl pending i (IntrHandler_loop (take i tbl) pending 0 s)"
proof -
  have "foldl (\<lambda>s e. serve_entry pending e s) s (take i tbl @ drop i tbl) =
        foldl (\<lambda>s e. serve_entry pending e s)
          (foldl (\<lambda>s e. serve_entry pending e s) s (take i tbl)) (drop i tbl)"
    by (rule foldl_append)
  then show ?thesis
    by (simp add: loop_fold)
qed

lemma serve_entry_trace:
  assumes "\<forall>h. Handler e = Some h \<longrightarrow> quiet h"
  shows "trace (serve_entry pending e s) = trace s @ entry_events pending e s"
  using assms
  by (auto simp add: serve_entry_def entry_events_def mask_contained_def prim_defs quiet_trace
      split: option.splits)

lemma serve_entry_state:
  assumes "\<forall>h. Handler e = Some h \<longrightarrow> quiet h"
  shows "serve_entry pending e s = s\<lparr>trace := trace s @ entry_events pending e s\<rparr>"
  by (simp add: psm_state_eq serve_entry_trace[OF assms])

lemma fold_trace:
  assumes "quiet_table tbl"
  shows "trace (foldl (\<lambda>s e. serve_entry pending e s) s tbl)
           = trace s @ dispatch_events pending tbl s"
  using assms
proof (induction tbl arbitrary: s)
  case Nil
  then show ?case by simp
next
  case (Cons e es)
  then have qe: "\<forall>h. Handler e = Some h \<longrightarrow> quiet h" and qes: "quiet_table es"
    by (simp_all add: quiet_table_def)
  show ?case
    by (simp add: Cons.IH[OF qes] serve_entry_state[OF qe])
qed

lemma entry_acks:
  assumes "\<forall>h. Handler e = Some h \<longrightarrow> quiet h"
  shows "writes_to PSM_IOMODULE_IRQ_ACK (entry_events pending e s) =
           (if mask_contained pending e then [Mask e] else [])"
  using assms
  by (auto simp add: entry_events_def writes_to_append writes_to_Cons writes_to_Nil quiet_def
      split: option.splits)

lemma dispatch_acks:
  assumes "quiet_table tbl"
  shows "writes_to PSM_IOMODULE_IRQ_ACK (dispatch_events pending tbl s) =
           map Mask (filter (mask_contained pending) tbl)"
  using assms
proof (induction tbl arbitrary: s)
  case Nil
  then show ?case by (simp add: writes_to_Nil)
next
  case (Cons e es)
  then have qe: "\<forall>h. Handler e = Some h \<longrightarrow> quiet h" and qes: "quiet_table es"
    by (simp_all add: quiet_table_def)
  show ?case
    by (simp add: writes_to_append entry_acks[OF qe] Cons.IH[OF qes])
qed

lemma loop_trace:
  "quiet_table tbl \<Longrightarrow>
   trace (IntrHandler_loop tbl pending 0 s) = trace s @ dispatch_events pending tbl s"
  by (simp add: loop_fold fold_trace)

lemma loop_from_trace:
  "quiet_table tbl \<Longrightarrow>
   trace (IntrHandler_loop tbl pending i s) = trace s @ dispatch_events pending (drop i tbl) s"
  by (simp add: loop_fold fold_trace quiet_table_drop)

subsection \<open>The example platform\<close>

lemmas handler_defs = XPsmFw_InterruptIpiHandler_def XPsmfw_InterruptPwrUpHandler_def
  XPsmfw_InterruptPwrDwnHandler_def XPsmfw_InterruptWakeupHandler_def
  XPsmfw_InterruptPwrCtlHandler_def XPsmfw_InterruptGicP2Handler_def

lemma example_pending:
  "XPsmFw_Read32 example_platform PSM_IOMODULE_IRQ_PENDING
     (XPsmFw_Printf DEBUG_DETAILED (''Interrupt number = 0x%x'' @ CRLF) [0] s_init)
   = (35, \<lparr>trace = [Printf DEBUG_DETAILED (''Interrupt number = 0x%x'' @ CRLF) [0],
                     Read32 PSM_IOMODULE_IRQ_PENDING 35]\<rparr>)"
  by (simp add: prim_defs example_platform_def s_init_def)

lemma example_contained:
  "map Mask (filter (mask_contained 35) (g_TopLevelInterruptTable example_platform)) = [1, 2, 32]"
  by (simp add: g_TopLevelInterruptTable_def mask_contained_def example_platform_def)

subsection \<open>Dispatch\<close>

text \<open>
  Claim C1. In a call of the dispatcher, let \<open>pending\<close> be the value it reads from the
  pending register. The events of the call after that read are those of the table's entries,
  one entry after the other in table order: an entry whose mask is contained in
  \<open>pending\<close> contributes the events of its handler, if it has one, followed by one write
  of its mask to the acknowledge register, whatever status the handler's dispatcher
  returned; any other entry contributes nothing, so its handler does not run and its mask
  is not acknowledged. The writes to the acknowledge register during the call are exactly
  the masks of the contained entries, once each.
\<close>

theorem dispatch_acknowledges_contained_entries:
  "let s1 = XPsmFw_Printf DEBUG_DETAILED (''Interrupt number = 0x%x'' @ CRLF) [IntrNumber] s0;
       (pending, s2) = XPsmFw_Read32 p PSM_IOMODULE_IRQ_PENDING s1;
       tbl = g_TopLevelInterruptTable p
   in trace (XPsmFw_IntrHandler p IntrNumber s0) = trace s2 @ dispatch_events pending tbl s2
      \<and> writes_to PSM_IOMODULE_IRQ_ACK (events_since s0 (XPsmFw_IntrHandler p IntrNumber s0))
          = map Mask (filter (mask_contained pending) tbl)"
  by (simp add: XPsmFw_IntrHandler_def Let_def split: prod.splits)
     (simp add: loop_trace quiet_top dispatch_acks events_since_def prim_defs
        writes_to_append writes_to_Cons writes_to_Nil)

text \<open>
  On the example platform the pending register shows the IPI, power-up and software-reset
  sources. The power-up dispatcher fails and its source is acknowledged all the same; the
  software-reset entry has no handler and is acknowledged.
\<close>

theorem dispatch_example:
  "writes_to PSM_IOMODULE_IRQ_ACK
     (events_since s_init (XPsmFw_IntrHandler example_platform 0 s_init)) = [1, 2, 32]
   \<and> trace (XPsmFw_IntrHandler example_platform 0 s_init) =
     [Printf DEBUG_DETAILED (''Interrupt number = 0x%x'' @ CRLF) [0],
      Read32 PSM_IOMODULE_IRQ_PENDING 35,
      Read32 IPI_PSM_ISR 2,
      Ext (Call_XPsmFw_DispatchIpiHandler 2) XST_SUCCESS,
      Write32 IPI_PSM_ISR 2,
      Write32 PSM_IOMODULE_IRQ_ACK 1,
      Read32 PSM_GLOBAL_REG_REQ_PWRUP_STATUS 0,
      Read32 PSM_GLOBAL_REG_REQ_PWRUP_INT_MASK 0,
      Ext (Call_XPsmFw_DispatchPwrUpHandler 0 0) XST_FAILURE,
      Printf DEBUG_ERROR (''Error in handling Power up interrupt'' @ CRLF) [],
      Write32 PSM_IOMODULE_IRQ_ACK 2,
      Write32 PSM_IOMODULE_IRQ_ACK 32]"
proof
  note t = dispatch_acknowledges_contained_entries[of 0 s_init example_platform,
      unfolded Let_def example_pending prod.case]
  from t show "writes_to PSM_IOMODULE_IRQ_ACK
     (events_since s_init (XPsmFw_IntrHandler example_platform 0 s_init)) = [1, 2, 32]"
    by (simp only: example_contained)
  show "trace (XPsmFw_IntrHandler example_platform 0 s_init) =
     [Printf DEBUG_DETAILED (''Interrupt number = 0x%x'' @ CRLF) [0],
      Read32 PSM_IOMODULE_IRQ_PENDING 35,
      Read32 IPI_PSM_ISR 2,
      Ext (Call_XPsmFw_DispatchIpiHandler 2) XST_SUCCESS,
      Write32 IPI_PSM_ISR 2,
      Write32 PSM_IOMODULE_IRQ_ACK 1,
      Read32 PSM_GLOBAL_REG_REQ_PWRUP_STATUS 0,
      Read32 PSM_GLOBAL_REG_REQ_PWRUP_INT_MASK 0,
      Ext (Call_XPsmFw_DispatchPwrUpHandler 0 0) XST_FAILURE,
      Printf DEBUG_ERROR (''Error in handling Power up interrupt'' @ CRLF) [],
      Write32 PSM_IOMODULE_IRQ_ACK 2,
      Write32 PSM_IOMODULE_IRQ_ACK 32]"
    by (simp add: XPsmFw_IntrHandler_def loop_fold serve_entry_def
        g_TopLevelInterruptTable_def handler_defs prim_defs example_platform_def s_init_def)
qed

text \<open>
  Claim C6. The dispatcher inspects the entries in table order and finishes with one
  entry before it looks at the next. For every position \<open>i\<close>: when the loop reaches
  index \<open>i\<close>, the state \<open>mid\<close> is the one a complete run over the first \<open>i\<close>
  entries leaves, with the events of their handlers and their acknowledgments in the trace;
  the call then continues from index \<open>i\<close> in that state, and everything it adds comes
  after, from the entries at \<open>i\<close> and beyond. The acknowledgments before that point are
  those of the contained entries among the first \<open>i\<close>, the ones after it those of the
  contained entries among the rest.
\<close>

theorem dispatch_in_table_order:
  "let s1 = XPsmFw_Printf DEBUG_DETAILED (''Interrupt number = 0x%x'' @ CRLF) [IntrNumber] s0;
       (pending, s2) = XPsmFw_Read32 p PSM_IOMODULE_IRQ_PENDING s1;
       tbl = g_TopLevelInterruptTable p;
       mid = IntrHandler_loop (take i tbl) pending 0 s2
   in XPsmFw_IntrHandler p IntrNumber s0 = IntrHandler_loop tbl pending i mid
      \<and> trace mid = trace s2 @ dispatch_events pending (take i tbl) s2
      \<and> trace (XPsmFw_IntrHandler p IntrNumber s0)
          = trace mid @ dispatch_events pending (drop i tbl) mid
      \<and> writes_to PSM_IOMODULE_IRQ_ACK (dispatch_events pending (take i tbl) s2)
          = map Mask (filter (mask_contained pending) (take i tbl))
      \<and> writes_to PSM_IOMODULE_IRQ_ACK (dispatch_events pending (drop i tbl) mid)
          = map Mask (filter (mask_contained pending) (drop i tbl))"
proof -
  let ?tbl = "g_TopLevelInterruptTable p"
  obtain pending s2 where rd:
    "XPsmFw_Read32 p PSM_IOMODULE_IRQ_PENDING
       (XPsmFw_Printf DEBUG_DETAILED (''Interrupt number = 0x%x'' @ CRLF) [IntrNumber] s0)
     = (pending, s2)"
    by (meson surj_pair)
  let ?mid = "IntrHandler_loop (take i ?tbl) pending 0 s2"
  let ?fin = "XPsmFw_IntrHandler p IntrNumber s0"
  have qt: "quiet_table (take i ?tbl)" and qd: "quiet_table (drop i ?tbl)"
    by (simp_all add: quiet_top quiet_table_take quiet_table_drop)
  have fin: "?fin = IntrHandler_loop ?tbl pending 0 s2"
    unfolding XPsmFw_IntrHandler_def Let_def rd prod.case by (rule refl)
  have c1: "?fin = IntrHandler_loop ?tbl pending i ?mid"
    unfolding fin by (rule loop_take_drop)
  have c2: "trace ?mid = trace s2 @ dispatch_events pending (take i ?tbl) s2"
    by (rule loop_trace[OF qt])
  have c3: "trace ?fin = trace ?mid @ dispatch_events pending (drop i ?tbl) ?mid"
    by (subst c1) (rule loop_from_trace[OF quiet_top])
  have c4: "writes_to PSM_IOMODULE_IRQ_ACK (dispatch_events pending (take i ?tbl) s2)
          = map Mask (filter (mask_contained pending) (take i ?tbl))"
    by (rule dispatch_acks[OF qt])
  have c5: "writes_to PSM_IOMODULE_IRQ_ACK (dispatch_events pending (drop i ?tbl) ?mid)
          = map Mask (filter (mask_contained pending) (drop i ?tbl))"
    by (rule dispatch_acks[OF qd])
  show ?thesis
    unfolding Let_def rd prod.case
    by (intro conjI c1 c2 c3 c4 c5)
qed

text \<open>
  On the example platform, at position 2: the IPI and power-up entries are served and
  acknowledged before the third entry is inspected, and the rest of the call adds the
  acknowledgment of the software-reset source only.
\<close>

theorem dispatch_order_example:
  "trace (IntrHandler_loop (take 2 (g_TopLevelInterruptTable example_platform)) 35 0
      \<lparr>trace = [Printf DEBUG_DETAILED (''Interrupt number = 0x%x'' @ CRLF) [0],
                Read32 PSM_IOMODULE_IRQ_PENDING 35]\<rparr>) =
     [Printf DEBUG_DETAILED (''Interrupt number = 0x%x'' @ CRLF) [0],
      Read32 PSM_IOMODULE_IRQ_PENDING 35,
      Read32 IPI_PSM_ISR 2,
      Ext (Call_XPsmFw_DispatchIpiHandler 2) XST_SUCCESS,
      Write32 IPI_PSM_ISR 2,
      Write32 PSM_IOMODULE_IRQ_ACK 1,
      Read32 PSM_GLOBAL_REG_REQ_PWRUP_STATUS 0,
      Read32 PSM_GLOBAL_REG_REQ_PWRUP_INT_MASK 0,
      Ext (Call_XPsmFw_DispatchPwrUpHandler 0 0) XST_FAILURE,
      Printf DEBUG_ERROR (''Error in handling Power up interrupt'' @ CRLF) [],
      Write32 PSM_IOMODULE_IRQ_ACK 2]
   \<and> dispatch_events 35 (drop 2 (g_TopLevelInterruptTable example_platform))
        (IntrHandler_loop (take 2 (g_TopLevelInterruptTable example_platform)) 35 0
           \<lparr>trace = [Printf DEBUG_DETAILED (''Interrupt number = 0x%x'' @ CRLF) [0],
                     Read32 PSM_IOMODULE_IRQ_PENDING 35]\<rparr>)
      = [Write32 PSM_IOMODULE_IRQ_ACK 32]"
proof -
  let ?s2 = "\<lparr>trace = [Printf DEBUG_DETAILED (''Interrupt number = 0x%x'' @ CRLF) [0],
                       Read32 PSM_IOMODULE_IRQ_PENDING 35]\<rparr>"
  let ?tbl = "g_TopLevelInterruptTable example_platform"
  let ?mid = "IntrHandler_loop (take 2 ?tbl) 35 0 ?s2"
  note t = dispatch_in_table_order[of 0 s_init example_platform 2,
      unfolded Let_def example_pending prod.case]
  have fin: "trace (XPsmFw_IntrHandler example_platform 0 s_init) =
     [Printf DEBUG_DETAILED (''Interrupt number = 0x%x'' @ CRLF) [0],
      Read32 PSM_IOMODULE_IRQ_PENDING 35,
      Read32 IPI_PSM_ISR 2,
      Ext (Call_XPsmFw_DispatchIpiHandler 2) XST_SUCCESS,
      Write32 IPI_PSM_ISR 2,
      Write32 PSM_IOMODULE_IRQ_ACK 1,
      Read32 PSM_GLOBAL_REG_REQ_PWRUP_STATUS 0,
      Read32 PSM_GLOBAL_REG_REQ_PWRUP_INT_MASK 0,
      Ext (Call_XPsmFw_DispatchPwrUpHandler 0 0) XST_FAILURE,
      Printf DEBUG_ERROR (''Error in handling Power up interrupt'' @ CRLF) [],
      Write32 PSM_IOMODULE_IRQ_ACK 2,
      Write32 PSM_IOMODULE_IRQ_ACK 32]"
    by (simp add: XPsmFw_IntrHandler_def loop_fold serve_entry_def
        g_TopLevelInterruptTable_def handler_defs prim_defs example_platform_def s_init_def)
  have mid: "trace ?mid =
     [Printf DEBUG_DETAILED (''Interrupt number = 0x%x'' @ CRLF) [0],
      Read32 PSM_IOMODULE_IRQ_PENDING 35,
      Read32 IPI_PSM_ISR 2,
      Ext (Call_XPsmFw_DispatchIpiHandler 2) XST_SUCCESS,
      Write32 IPI_PSM_ISR 2,
      Write32 PSM_IOMODULE_IRQ_ACK 1,
      Read32 PSM_GLOBAL_REG_REQ_PWRUP_STATUS 0,
      Read32 PSM_GLOBAL_REG_REQ_PWRUP_INT_MASK 0,
      Ext (Call_XPsmFw_DispatchPwrUpHandler 0 0) XST_FAILURE,
      Printf DEBUG_ERROR (''Error in handling Power up interrupt'' @ CRLF) [],
      Write32 PSM_IOMODULE_IRQ_ACK 2]"
    by (simp add: loop_fold serve_entry_def
        g_TopLevelInterruptTable_def handler_defs prim_defs example_platform_def)
  from t have "trace (XPsmFw_IntrHandler example_platform 0 s_init)
                 = trace ?mid @ dispatch_events 35 (drop 2 ?tbl) ?mid"
    by (elim conjE)
  then have "dispatch_events 35 (drop 2 ?tbl) ?mid = [Write32 PSM_IOMODULE_IRQ_ACK 32]"
    unfolding fin mid by simp
  with mid show ?thesis by (intro conjI)
qed

subsection \<open>The IPI handler\<close>

text \<open>
  Claim C10. Every call of the IPI interrupt handler first reads the IPI status register
  and writes the value it read back to that register exactly once, and writes nothing else
  to it. This holds in each of its three paths; when the PMC bit is not set in the value
  read, the handler prints the invalid-IPI error, does not call the IPI dispatcher, still
  writes the value back, and reports the failure.
\<close>

theorem ipi_status_cleared_with_value_read:
  "let M = reg_value p (trace s) IPI_PSM_ISR;
       PMC = IPI_PSM_ISR_PMC_MASK p;
       st = ext_status p (trace s @ [Read32 IPI_PSM_ISR M]) (Call_XPsmFw_DispatchIpiHandler PMC);
       es = events_since s (XPsmFw_InterruptIpiHandler p s)
   in trace (XPsmFw_InterruptIpiHandler p s) = trace s @ es
      \<and> es = Read32 IPI_PSM_ISR M #
             (if PMC \<noteq> (PMC AND M)
              then [Printf DEBUG_ERROR (''Invalid IPI interrupt'' @ CRLF) [],
                    Write32 IPI_PSM_ISR M,
                    Printf DEBUG_ERROR (''Error in handling IPI interrupt'' @ CRLF) []]
              else if XPAR_XIPIPSU_0_DEVICE_ID_defined p
              then [Ext (Call_XPsmFw_DispatchIpiHandler PMC) st, Write32 IPI_PSM_ISR M]
                   @ (if XST_SUCCESS \<noteq> st
                      then [Printf DEBUG_ERROR (''Error in handling IPI interrupt'' @ CRLF) []]
                      else [])
              else [Printf DEBUG_ERROR (''PSM IPI channel is not enabled'' @ CRLF) [],
                    Write32 IPI_PSM_ISR M,
                    Printf DEBUG_ERROR (''Error in handling IPI interrupt'' @ CRLF) []])
      \<and> writes_to IPI_PSM_ISR es = [M]
      \<and> ipi_dispatches es =
          (if PMC = (PMC AND M) \<and> XPAR_XIPIPSU_0_DEVICE_ID_defined p then [PMC] else [])"
  by (simp add: XPsmFw_InterruptIpiHandler_def prim_defs events_since_def writes_to_def
        ipi_dispatches_def)

text \<open>A status register that shows another source than the PMC.\<close>

theorem ipi_foreign_source_example:
  "trace (XPsmFw_InterruptIpiHandler foreign_ipi_platform s_init) =
     [Read32 IPI_PSM_ISR 4,
      Printf DEBUG_ERROR (''Invalid IPI interrupt'' @ CRLF) [],
      Write32 IPI_PSM_ISR 4,
      Printf DEBUG_ERROR (''Error in handling IPI interrupt'' @ CRLF) []]
   \<and> writes_to IPI_PSM_ISR
        (events_since s_init (XPsmFw_InterruptIpiHandler foreign_ipi_platform s_init)) = [4]
   \<and> ipi_dispatches
        (events_since s_init (XPsmFw_InterruptIpiHandler foreign_ipi_platform s_init)) = []"
proof -
  have v: "reg_value foreign_ipi_platform [] IPI_PSM_ISR = 4"
    and pmc: "IPI_PSM_ISR_PMC_MASK foreign_ipi_platform = 2"
    and ts: "trace s_init = []"
    by (simp_all add: foreign_ipi_platform_def example_platform_def s_init_def)
  note t = ipi_status_cleared_with_value_read[of foreign_ipi_platform s_init,
      unfolded Let_def ts v pmc]
  from t show ?thesis by (simp add: writes_to_def ipi_dispatches_def)
qed

subsection \<open>The exception path\<close>

lemma ExceptionHandler_loop_runs: "ExceptionHandler_loop fuel s = Running s"
  by (induction fuel) (simp_all add: TRUE_def)

lemma ExceptionInit_loop_registers:
  assumes "XIL_EXCEPTION_ID_LAST p < 65535"
  shows "ExceptionInit_loop p Index s =
           Some (s\<lparr>trace := trace s @
                   map (\<lambda>i. ExtVoid (Call_Xil_ExceptionRegisterHandler i
                                       (Some Fn_XPsmfw_ExceptionHandler) None))
                       [unat Index ..< Suc (XIL_EXCEPTION_ID_LAST p)]\<rparr>)"
proof (induction "Suc (XIL_EXCEPTION_ID_LAST p) - unat Index" arbitrary: Index s)
  case 0
  then have "\<not> unat Index \<le> XIL_EXCEPTION_ID_LAST p" by simp
  then show ?case
    by (subst ExceptionInit_loop.simps) simp
next
  case (Suc n)
  then have le: "unat Index \<le> XIL_EXCEPTION_ID_LAST p" by simp
  with assms have "unat Index + 1 < 2 ^ 16" by simp
  then have un: "unat (Index + 1) = Suc (unat Index)"
    by (simp add: unat_add_lem [THEN iffD1])
  have n: "n = Suc (XIL_EXCEPTION_ID_LAST p) - unat (Index + 1)"
    using Suc.hyps(2) un by simp
  have upt: "[unat Index ..< Suc (XIL_EXCEPTION_ID_LAST p)] =
             unat Index # [Suc (unat Index) ..< Suc (XIL_EXCEPTION_ID_LAST p)]"
    using le by (simp add: upt_conv_Cons)
  show ?case
    by (subst ExceptionInit_loop.simps)
       (simp add: le Suc.hyps(1)[OF n] un upt Xil_ExceptionRegisterHandler_def ext_void_def
          emit_def del: upt_Suc)
qed

text \<open>
  Claim C7. The exception handler writes the PSM non-correctable bit to the error trigger
  register and never returns: whatever the fuel, the run is still in the handler, and its
  trace is the trace at entry followed by that one write, so nothing is done after it.
  The handler is the one registered for every exception id from
  \<open>XIL_EXCEPTION_ID_FIRST\<close> to \<open>XIL_EXCEPTION_ID_LAST\<close>: when these fit the 16-bit
  loop counter, \<open>XPsmfw_ExceptionInit\<close> returns after registering it for each of them.
\<close>

theorem exception_handler_records_and_halts:
  "XPsmfw_ExceptionHandler p fuel Data s =
     Running (s\<lparr>trace := trace s @ [Write32 PSM_GLOBAL_REG_ERR1_TRIG
                                       (PSM_GLOBAL_REG_ERR1_TRIG_PSM_B_NCR_MASK p)]\<rparr>)
   \<and> (XIL_EXCEPTION_ID_FIRST p < 65536 \<and> XIL_EXCEPTION_ID_LAST p < 65535 \<longrightarrow>
        XPsmfw_ExceptionInit p s =
          Some (s\<lparr>trace := trace s @
                  map (\<lambda>i. ExtVoid (Call_Xil_ExceptionRegisterHandler i
                                      (Some Fn_XPsmfw_ExceptionHandler) None))
                      [XIL_EXCEPTION_ID_FIRST p ..< Suc (XIL_EXCEPTION_ID_LAST p)]\<rparr>))"
proof (intro conjI impI)
  show "XPsmfw_ExceptionHandler p fuel Data s =
     Running (s\<lparr>trace := trace s @ [Write32 PSM_GLOBAL_REG_ERR1_TRIG
                                       (PSM_GLOBAL_REG_ERR1_TRIG_PSM_B_NCR_MASK p)]\<rparr>)"
    by (simp add: XPsmfw_ExceptionHandler_def ExceptionHandler_loop_runs prim_defs)
next
  assume a: "XIL_EXCEPTION_ID_FIRST p < 65536 \<and> XIL_EXCEPTION_ID_LAST p < 65535"
  then have "unat (of_nat (XIL_EXCEPTION_ID_FIRST p) :: u16) = XIL_EXCEPTION_ID_FIRST p"
    by (simp add: unat_of_nat)
  with a show "XPsmfw_ExceptionInit p s =
          Some (s\<lparr>trace := trace s @
                  map (\<lambda>i. ExtVoid (Call_Xil_ExceptionRegisterHandler i
                                      (Some Fn_XPsmfw_ExceptionHandler) None))
                      [XIL_EXCEPTION_ID_FIRST p ..< Suc (XIL_EXCEPTION_ID_LAST p)]\<rparr>)"
    by (simp add: XPsmfw_ExceptionInit_def ExceptionInit_loop_registers del: upt_Suc)
qed

text \<open>The exception path on the example platform, with exception ids 0 to 2.\<close>

theorem exception_path_example:
  "XIL_EXCEPTION_ID_FIRST example_platform < 65536
   \<and> XIL_EXCEPTION_ID_LAST example_platform < 65535
   \<and> XPsmfw_ExceptionHandler example_platform 1000 None s_init =
       Running \<lparr>trace = [Write32 PSM_GLOBAL_REG_ERR1_TRIG 8]\<rparr>
   \<and> XPsmfw_ExceptionInit example_platform s_init =
       Some \<lparr>trace =
         [ExtVoid (Call_Xil_ExceptionRegisterHandler 0 (Some Fn_XPsmfw_ExceptionHandler) None),
          ExtVoid (Call_Xil_ExceptionRegisterHandler 1 (Some Fn_XPsmfw_ExceptionHandler) None),
          ExtVoid (Call_Xil_ExceptionRegisterHandler 2 (Some Fn_XPsmfw_ExceptionHandler) None)]\<rparr>"
proof -
  have f: "XIL_EXCEPTION_ID_FIRST example_platform = 0"
    and l: "XIL_EXCEPTION_ID_LAST example_platform = 2"
    and m: "PSM_GLOBAL_REG_ERR1_TRIG_PSM_B_NCR_MASK example_platform = 8"
    by (simp_all add: example_platform_def)
  note t = exception_handler_records_and_halts[of example_platform 1000 None s_init,
      unfolded f l m]
  from t show ?thesis
    by (simp add: f l s_init_def upt_conv_Cons)
qed

subsection \<open>Override and restore\<close>

lemma bindings_append: "bindings (xs @ ys) = foldl connect_effect (bindings xs) ys"
  by (simp add: bindings_def)

text \<open>
  Claim C9. The override and the restore operation reject an interrupt number that is not
  below \<open>XPAR_IOMODULE_INTC_MAX_INTR_SIZE\<close>, and the override a null handler, with
  \<open>XST_INVALID_PARAM\<close>; the state is then unchanged, so the driver is not called and no
  binding changes. For a number in range (and a handler that is not null) the operation
  disables the interrupt, passes the supplied handler, respectively the default dispatcher
  \<open>XPsmFw_IntrHandler\<close>, to \<open>XIOModule_Connect\<close> for that number, returns the status of
  that call, and enables the interrupt again when the driver accepted the handler. The
  binding of that number is then the handler passed, and every other binding is as before;
  when the driver refuses, no binding changes.
\<close>

theorem handler_override_guarded:
  "(StlInterruptHandler = None \<or> XPAR_IOMODULE_INTC_MAX_INTR_SIZE p \<le> unat n \<longrightarrow>
      XPsmFw_RegisterStlInterruptHandler p n StlInterruptHandler s = (XST_INVALID_PARAM, s))
   \<and> (XPAR_IOMODULE_INTC_MAX_INTR_SIZE p \<le> unat n \<longrightarrow>
      XPsmFw_RestoreInterruptHandler p n s = (XST_INVALID_PARAM, s))
   \<and> (StlInterruptHandler \<noteq> None \<and> unat n < XPAR_IOMODULE_INTC_MAX_INTR_SIZE p \<longrightarrow>
      (let st = ext_status p (trace s @ [ExtVoid (Call_XIOModule_Disable n)])
                  (Call_XIOModule_Connect n StlInterruptHandler None);
           res = XPsmFw_RegisterStlInterruptHandler p n StlInterruptHandler s
       in fst res = st
          \<and> trace (snd res) = trace s @
                [ExtVoid (Call_XIOModule_Disable n),
                 Ext (Call_XIOModule_Connect n StlInterruptHandler None) st]
                @ (if st = XST_SUCCESS then [ExtVoid (Call_XIOModule_Enable n)] else [])
          \<and> bindings (trace (snd res)) =
                (if st = XST_SUCCESS then (bindings (trace s))(n \<mapsto> (StlInterruptHandler, None))
                 else bindings (trace s))))
   \<and> (unat n < XPAR_IOMODULE_INTC_MAX_INTR_SIZE p \<longrightarrow>
      (let st = ext_status p (trace s @ [ExtVoid (Call_XIOModule_Disable n)])
                  (Call_XIOModule_Connect n (Some Fn_XPsmFw_IntrHandler) None);
           res = XPsmFw_RestoreInterruptHandler p n s
       in fst res = st
          \<and> trace (snd res) = trace s @
                [ExtVoid (Call_XIOModule_Disable n),
                 Ext (Call_XIOModule_Connect n (Some Fn_XPsmFw_IntrHandler) None) st]
                @ (if st = XST_SUCCESS then [ExtVoid (Call_XIOModule_Enable n)] else [])
          \<and> bindings (trace (snd res)) =
                (if st = XST_SUCCESS
                 then (bindings (trace s))(n \<mapsto> (Some Fn_XPsmFw_IntrHandler, None))
                 else bindings (trace s))))"
  by (auto simp add: XPsmFw_RegisterStlInterruptHandler_def XPsmFw_RestoreInterruptHandler_def
        XIOModule_Disable_def XIOModule_Connect_def XIOModule_Enable_def prim_defs
        bindings_append connect_effect_def)

text \<open>
  On the example platform, whose table has 32 interrupts and whose driver accepts every
  handler: number 32 and a null handler are rejected; number 3 is accepted, its binding
  becomes the supplied handler, and a restore after it makes it the default dispatcher.
\<close>

theorem handler_override_example:
  "XPAR_IOMODULE_INTC_MAX_INTR_SIZE example_platform \<le> unat (32 :: u8)
   \<and> XPsmFw_RegisterStlInterruptHandler example_platform 32 (Some (Fn_other 7)) s_init
       = (XST_INVALID_PARAM, s_init)
   \<and> XPsmFw_RegisterStlInterruptHandler example_platform 3 None s_init
       = (XST_INVALID_PARAM, s_init)
   \<and> XPsmFw_RestoreInterruptHandler example_platform 32 s_init = (XST_INVALID_PARAM, s_init)
   \<and> unat (3 :: u8) < XPAR_IOMODULE_INTC_MAX_INTR_SIZE example_platform
   \<and> fst (XPsmFw_RegisterStlInterruptHandler example_platform 3 (Some (Fn_other 7)) s_init)
       = XST_SUCCESS
   \<and> trace (snd (XPsmFw_RegisterStlInterruptHandler example_platform 3
                    (Some (Fn_other 7)) s_init))
       = [ExtVoid (Call_XIOModule_Disable 3),
          Ext (Call_XIOModule_Connect 3 (Some (Fn_other 7)) None) XST_SUCCESS,
          ExtVoid (Call_XIOModule_Enable 3)]
   \<and> bindings (trace (snd (XPsmFw_RegisterStlInterruptHandler example_platform 3
                              (Some (Fn_other 7)) s_init)))
       = (bindings (trace s_init))(3 \<mapsto> (Some (Fn_other 7), None))
   \<and> bindings (trace (snd (XPsmFw_RestoreInterruptHandler example_platform 3
                 (snd (XPsmFw_RegisterStlInterruptHandler example_platform 3
                         (Some (Fn_other 7)) s_init)))))
       = (bindings (trace s_init))(3 \<mapsto> (Some Fn_XPsmFw_IntrHandler, None))"
proof -
  have mx: "XPAR_IOMODULE_INTC_MAX_INTR_SIZE example_platform = 32"
    and es: "ext_status example_platform h (Call_XIOModule_Connect i f c) = XST_SUCCESS"
    for h i f c
    by (simp_all add: example_platform_def)
  let ?reg = "XPsmFw_RegisterStlInterruptHandler example_platform 3 (Some (Fn_other 7)) s_init"
  have big: "XPAR_IOMODULE_INTC_MAX_INTR_SIZE example_platform \<le> unat (32 :: u8)"
    and small: "unat (3 :: u8) < XPAR_IOMODULE_INTC_MAX_INTR_SIZE example_platform"
    by (simp_all add: mx)
  have h1: "Some (Fn_other 7) = None
            \<or> XPAR_IOMODULE_INTC_MAX_INTR_SIZE example_platform \<le> unat (32 :: u8)"
    and h2: "(None :: fn_ptr option) = None
            \<or> XPAR_IOMODULE_INTC_MAX_INTR_SIZE example_platform \<le> unat (3 :: u8)"
    and h3: "Some (Fn_other 7) \<noteq> None
            \<and> unat (3 :: u8) < XPAR_IOMODULE_INTC_MAX_INTR_SIZE example_platform"
    by (simp_all add: mx)
  note c1 = handler_override_guarded[of "Some (Fn_other 7)" example_platform 32 s_init,
      THEN conjunct1, THEN mp, OF h1]
  note c2 = handler_override_guarded[of None example_platform 3 s_init,
      THEN conjunct1, THEN mp, OF h2]
  note c3 = handler_override_guarded[of None example_platform 32 s_init,
      THEN conjunct2, THEN conjunct1, THEN mp, OF big]
  note c4 = handler_override_guarded[of "Some (Fn_other 7)" example_platform 3 s_init,
      THEN conjunct2, THEN conjunct2, THEN conjunct1, THEN mp, OF h3, unfolded Let_def es]
  note c5 = handler_override_guarded[of None example_platform 3 "snd ?reg",
      THEN conjunct2, THEN conjunct2, THEN conjunct2, THEN mp, OF small, unfolded Let_def es]
  have ts: "trace s_init = []" by (simp add: s_init_def)
  have r1: "fst ?reg = XST_SUCCESS"
    by (rule c4[THEN conjunct1])
  have r2: "trace (snd ?reg) = [ExtVoid (Call_XIOModule_Disable 3),
          Ext (Call_XIOModule_Connect 3 (Some (Fn_other 7)) None) XST_SUCCESS,
          ExtVoid (Call_XIOModule_Enable 3)]"
    using c4[THEN conjunct2, THEN conjunct1] by (simp add: ts)
  have r3: "bindings (trace (snd ?reg)) = (bindings (trace s_init))(3 \<mapsto> (Some (Fn_other 7), None))"
    using c4[THEN conjunct2, THEN conjunct2] by simp
  have r4: "bindings (trace (snd (XPsmFw_RestoreInterruptHandler example_platform 3
                 (snd ?reg))))
       = (bindings (trace s_init))(3 \<mapsto> (Some Fn_XPsmFw_IntrHandler, None))"
    using c5[THEN conjunct2, THEN conjunct2] by (simp add: r3)
  from big c1 c2 c3 small r1 r2 r3 r4 show ?thesis
    by (intro conjI)
qed

section \<open>Properties of the PLM services, as the specification describes them\<close>

subsection \<open>Readback progress\<close>

text \<open>
  Claim C4. From a state with \<open>ProcessedLen \<le> MaxSize\<close>, \<open>recordProgress\<close> leaves
  \<open>ProcessedLen \<le> MaxSize\<close> and does not change \<open>MaxSize\<close>. When the processed
  length plus the delta exceeds the maximum, the call returns \<open>Overflow\<close> and the state
  is the one before the call; otherwise the call succeeds and the processed length has
  grown by the delta (without wrapping around).
\<close>

theorem recordProgress_bounded:
  "ProcessedLen rb \<le> MaxSize rb \<longrightarrow>
     ProcessedLen (snd (recordProgress delta rb)) \<le> MaxSize rb
     \<and> MaxSize (snd (recordProgress delta rb)) = MaxSize rb
     \<and> (unat (MaxSize rb) < unat (ProcessedLen rb) + unat delta \<longrightarrow>
          recordProgress delta rb = (Some Overflow, rb))
     \<and> (unat (ProcessedLen rb) + unat delta \<le> unat (MaxSize rb) \<longrightarrow>
          recordProgress delta rb = (None, rb\<lparr>ProcessedLen := ProcessedLen rb + delta\<rparr>)
          \<and> unat (ProcessedLen (snd (recordProgress delta rb)))
              = unat (ProcessedLen rb) + unat delta)"
proof (intro impI conjI)
  assume inv: "ProcessedLen rb \<le> MaxSize rb"
  have fit: "unat (ProcessedLen rb + delta) = unat (ProcessedLen rb) + unat delta"
    if "unat (ProcessedLen rb) + unat delta \<le> unat (MaxSize rb)"
  proof -
    have "unat (MaxSize rb) < 2 ^ 32" using unsigned_less[of "MaxSize rb"] by simp
    with that have "unat (ProcessedLen rb) + unat delta < 2 ^ LENGTH(32)" by simp
    then show ?thesis by (simp add: unat_add_lem [THEN iffD1])
  qed
  show "ProcessedLen (snd (recordProgress delta rb)) \<le> MaxSize rb"
    using inv fit by (auto simp add: recordProgress_def word_le_nat_alt)
  show "MaxSize (snd (recordProgress delta rb)) = MaxSize rb"
    by (simp add: recordProgress_def)
  show "recordProgress delta rb = (Some Overflow, rb)"
    if "unat (MaxSize rb) < unat (ProcessedLen rb) + unat delta"
    using that by (simp add: recordProgress_def)
  show "recordProgress delta rb = (None, rb\<lparr>ProcessedLen := ProcessedLen rb + delta\<rparr>)"
    if "unat (ProcessedLen rb) + unat delta \<le> unat (MaxSize rb)"
    using that by (simp add: recordProgress_def)
  show "unat (ProcessedLen (snd (recordProgress delta rb))) = unat (ProcessedLen rb) + unat delta"
    if "unat (ProcessedLen rb) + unat delta \<le> unat (MaxSize rb)"
    using that fit by (simp add: recordProgress_def)
qed

text \<open>
  The scenario of the specification: with a maximum of 100, recording 60 succeeds, and
  recording 50 more fails with \<open>Overflow\<close> and leaves the processed length at 60.
\<close>

theorem recordProgress_example:
  "ProcessedLen example_readback \<le> MaxSize example_readback
   \<and> recordProgress 60 example_readback = (None, example_readback\<lparr>ProcessedLen := 60\<rparr>)
   \<and> ProcessedLen (example_readback\<lparr>ProcessedLen := 60\<rparr>)
        \<le> MaxSize (example_readback\<lparr>ProcessedLen := 60\<rparr>)
   \<and> unat (MaxSize (example_readback\<lparr>ProcessedLen := 60\<rparr>))
        < unat (ProcessedLen (example_readback\<lparr>ProcessedLen := 60\<rparr>)) + unat (50 :: u32)
   \<and> recordProgress 50 (example_readback\<lparr>ProcessedLen := 60\<rparr>)
        = (Some Overflow, example_readback\<lparr>ProcessedLen := 60\<rparr>)"
  using recordProgress_bounded[of example_readback 60]
    recordProgress_bounded[of "example_readback\<lparr>ProcessedLen := 60\<rparr>" 50]
  by (simp add: example_readback_def)

subsection \<open>Keyhole transfer\<close>

lemma step_fields:
  "totalLength (fst (snd (step st w))) = totalLength st"
  "windowSize (fst (snd (step st w))) = windowSize st"
  "cumulativeLength (fst (step st w)) = bytesTransferred (fst (snd (step st w)))"
  "completionFlag (fst (step st w)) =
     (bytesTransferred (fst (snd (step st w))) = totalLength st)"
  "chunkLength (fst (step st w)) =
     min (windowSize st) (totalLength st - bytesTransferred st)"
  "bytesTransferred (fst (snd (step st w))) = bytesTransferred st + chunkLength (fst (step st w))"
  by (simp_all add: step_def Let_def)

lemma step_chunk_nat:
  assumes "bytesTransferred st \<le> totalLength st"
  shows "unat (chunkLength (fst (step st w))) =
           min (unat (windowSize st)) (unat (totalLength st) - unat (bytesTransferred st))"
proof -
  have "unat (totalLength st - bytesTransferred st) =
        unat (totalLength st) - unat (bytesTransferred st)"
    using assms by (simp add: unat_sub)
  then show ?thesis
    by (simp add: step_fields min_def word_le_nat_alt)
qed

lemma step_transferred_nat:
  assumes "bytesTransferred st \<le> totalLength st"
  shows "unat (bytesTransferred (fst (snd (step st w)))) =
           unat (bytesTransferred st) + unat (chunkLength (fst (step st w)))"
proof -
  have le: "unat (bytesTransferred st) \<le> unat (totalLength st)"
    using assms by (simp add: word_le_nat_alt)
  have "unat (totalLength st) < 2 ^ 32"
    using unsigned_less[of "totalLength st"] by simp
  with le have "unat (bytesTransferred st) + unat (chunkLength (fst (step st w))) < 2 ^ LENGTH(32)"
    by (simp add: step_chunk_nat[OF assms])
  then show ?thesis
    by (simp add: step_fields(6) unat_add_lem [THEN iffD1])
qed

lemma step_invariant:
  assumes "bytesTransferred st \<le> totalLength st"
  shows "bytesTransferred st \<le> bytesTransferred (fst (snd (step st w)))"
    and "bytesTransferred (fst (snd (step st w))) \<le> totalLength st"
  using assms step_transferred_nat[OF assms, of w] step_chunk_nat[OF assms, of w]
  by (simp_all add: word_le_nat_alt)

lemma drive_Suc:
  "drive (Suc fuel) st w =
     (if completionFlag (fst (step st w))
      then Some ([fst (step st w)], fst (snd (step st w)), snd (snd (step st w)))
      else (case drive fuel (fst (snd (step st w))) (snd (snd (step st w))) of
              None \<Rightarrow> None
            | Some (rs, st'', w'') \<Rightarrow> Some (fst (step st w) # rs, st'', w'')))"
  by (simp add: case_prod_beta Let_def)

lemma last_chunk_small:
  "0 < r \<Longrightarrow> r \<le> W \<Longrightarrow> (if r mod W = 0 then W else r mod W) = (r::nat)"
  by (cases "r = W") auto

lemma div_plus_self: "0 < (n::nat) \<Longrightarrow> (m + n) div n = Suc (m div n)"
  by (simp add: div_add_self2)

lemma chunk_tail_eq: "(T::nat) - b - Suc k * W = T - (b + W) - k * W"
  by (simp only: mult_Suc diff_diff_left add.assoc)

lemma remaining_split: "(W::nat) < T - b \<Longrightarrow> T - b - 1 = (T - (b + W) - 1) + W"
  by linarith

lemma remaining_mod: "(W::nat) < T - b \<Longrightarrow> (T - b) mod W = (T - (b + W)) mod W"
  by (metis diff_diff_left le_mod_geq less_imp_le)

lemma drive_core:
  assumes "0 < unat (windowSize st)"
    and "unat (bytesTransferred st) < unat (totalLength st)"
    and "unat (totalLength st) - unat (bytesTransferred st) \<le> fuel"
  shows "\<exists>rs st' w'. drive fuel st w = Some (rs, st', w')
     \<and> map (unat \<circ> chunkLength) rs =
         replicate ((unat (totalLength st) - unat (bytesTransferred st) - 1)
                      div unat (windowSize st)) (unat (windowSize st))
         @ [unat (totalLength st) - unat (bytesTransferred st)
            - ((unat (totalLength st) - unat (bytesTransferred st) - 1)
                 div unat (windowSize st)) * unat (windowSize st)]
     \<and> map (unat \<circ> cumulativeLength) rs =
         running_total (unat (bytesTransferred st)) (map (unat \<circ> chunkLength) rs)
     \<and> map completionFlag rs =
         replicate ((unat (totalLength st) - unat (bytesTransferred st) - 1)
                      div unat (windowSize st)) False @ [True]
     \<and> unat (chunkLength (last rs)) =
         (if (unat (totalLength st) - unat (bytesTransferred st)) mod unat (windowSize st) = 0
          then unat (windowSize st)
          else (unat (totalLength st) - unat (bytesTransferred st)) mod unat (windowSize st))
     \<and> bytesTransferred st' = totalLength st
     \<and> totalLength st' = totalLength st"
  using assms
proof (induction fuel arbitrary: st w)
  case 0
  then show ?case by simp
next
  case (Suc fuel)
  let ?W = "unat (windowSize st)"
  let ?T = "unat (totalLength st)"
  let ?b = "unat (bytesTransferred st)"
  let ?k = "(?T - ?b - 1) div ?W"
  let ?r = "fst (step st w)"
  let ?st1 = "fst (snd (step st w))"
  let ?w1 = "snd (snd (step st w))"
  have inv: "bytesTransferred st \<le> totalLength st"
    using Suc.prems(2) by (simp add: word_le_nat_alt)
  have chunk: "unat (chunkLength ?r) = min ?W (?T - ?b)"
    by (rule step_chunk_nat[OF inv])
  have b1: "unat (bytesTransferred ?st1) = ?b + min ?W (?T - ?b)"
    using step_transferred_nat[OF inv, of w] chunk by simp
  have cum: "unat (cumulativeLength ?r) = ?b + min ?W (?T - ?b)"
    using b1 by (simp add: step_fields)
  show ?case
  proof (cases "?T - ?b \<le> ?W")
    case True
    then have "unat (bytesTransferred ?st1) = ?T"
      using b1 Suc.prems(2) by simp
    then have full: "bytesTransferred ?st1 = totalLength st"
      by (simp add: word_unat_eq_iff)
    then have flag: "completionFlag ?r" by (simp add: step_fields)
    have k: "?k = 0"
      using True Suc.prems(1,2) by simp
    have lastc: "(if (?T - ?b) mod ?W = 0 then ?W else (?T - ?b) mod ?W) = ?T - ?b"
      using True Suc.prems(2) by (intro last_chunk_small) simp_all
    have dr: "drive (Suc fuel) st w = Some ([?r], ?st1, ?w1)"
      by (simp only: drive_Suc flag if_True)
    have c1: "map (unat \<circ> chunkLength) [?r] = replicate ?k ?W @ [?T - ?b - ?k * ?W]"
      unfolding k using chunk True by simp
    have c2: "map (unat \<circ> cumulativeLength) [?r] =
                running_total ?b (map (unat \<circ> chunkLength) [?r])"
      using chunk cum by simp
    have c3: "map completionFlag [?r] = replicate ?k False @ [True]"
      unfolding k using flag by simp
    have c4: "unat (chunkLength (last [?r])) =
                (if (?T - ?b) mod ?W = 0 then ?W else (?T - ?b) mod ?W)"
      unfolding lastc using chunk True by simp
    have c5: "totalLength ?st1 = totalLength st"
      by (simp add: step_fields)
    show ?thesis
      apply (rule exI[of _ "[?r]"])
      apply (rule exI[of _ ?st1])
      apply (rule exI[of _ ?w1])
      apply (intro conjI)
            apply (rule dr)
           apply (rule c1)
          apply (rule c2)
         apply (rule c3)
        apply (rule c4)
       apply (rule full)
      apply (rule c5)
      done
  next
    case False
    then have gt: "?W < ?T - ?b" by simp
    have b1': "unat (bytesTransferred ?st1) = ?b + ?W"
      using b1 gt by simp
    then have "unat (bytesTransferred ?st1) \<noteq> ?T" using gt by simp
    then have nflag: "\<not> completionFlag ?r"
      by (auto simp add: step_fields)
    have p1: "0 < unat (windowSize ?st1)"
      using Suc.prems(1) by (simp add: step_fields)
    have p2: "unat (bytesTransferred ?st1) < unat (totalLength ?st1)"
      using b1' gt by (simp add: step_fields)
    have p3: "unat (totalLength ?st1) - unat (bytesTransferred ?st1) \<le> fuel"
      using b1' gt Suc.prems(1,3) by (simp add: step_fields)
    let ?k1 = "(?T - (?b + ?W) - 1) div ?W"
    from Suc.IH[OF p1 p2 p3, of ?w1]
    obtain rs st' w' where
      d: "drive fuel ?st1 ?w1 = Some (rs, st', w')"
      and ch: "map (unat \<circ> chunkLength) rs =
         replicate ?k1 ?W @ [?T - (?b + ?W) - ?k1 * ?W]"
      and cu: "map (unat \<circ> cumulativeLength) rs =
         running_total (?b + ?W) (map (unat \<circ> chunkLength) rs)"
      and fl: "map completionFlag rs = replicate ?k1 False @ [True]"
      and la: "unat (chunkLength (last rs)) =
         (if (?T - (?b + ?W)) mod ?W = 0 then ?W else (?T - (?b + ?W)) mod ?W)"
      and fin: "bytesTransferred st' = totalLength st" "totalLength st' = totalLength st"
      unfolding step_fields(1,2) b1' by (elim exE conjE) (rule that, assumption+)
    have ne: "rs \<noteq> []" using ch by auto
    have k: "?k = Suc ?k1"
      by (subst remaining_split[OF gt]) (rule div_plus_self[OF Suc.prems(1)])
    have m: "(?T - ?b) mod ?W = (?T - (?b + ?W)) mod ?W"
      by (rule remaining_mod[OF gt])
    have chunkW: "unat (chunkLength ?r) = ?W" using chunk gt by simp
    have cumW: "unat (cumulativeLength ?r) = ?b + ?W" using cum gt by simp
    have tail: "?T - ?b - Suc ?k1 * ?W = ?T - (?b + ?W) - ?k1 * ?W"
      by (rule chunk_tail_eq)
    have dr: "drive (Suc fuel) st w = Some (?r # rs, st', w')"
      by (simp only: drive_Suc nflag if_False d option.case prod.case)
    have c1: "map (unat \<circ> chunkLength) (?r # rs) = replicate ?k ?W @ [?T - ?b - ?k * ?W]"
      unfolding k tail using chunkW ch by simp
    have c2: "map (unat \<circ> cumulativeLength) (?r # rs) =
                running_total ?b (map (unat \<circ> chunkLength) (?r # rs))"
      using chunkW cumW cu by simp
    have c3: "map completionFlag (?r # rs) = replicate ?k False @ [True]"
      unfolding k using nflag fl by simp
    have c4: "unat (chunkLength (last (?r # rs))) =
                (if (?T - ?b) mod ?W = 0 then ?W else (?T - ?b) mod ?W)"
      unfolding m using la ne by simp
    show ?thesis
      apply (rule exI[of _ "?r # rs"])
      apply (rule exI[of _ st'])
      apply (rule exI[of _ w'])
      apply (intro conjI)
            apply (rule dr)
           apply (rule c1)
          apply (rule c2)
         apply (rule c3)
        apply (rule c4)
       apply (rule fin)
      apply (rule fin)
      done
  qed
qed

lemma running_total_bounds:
  "y \<in> set (running_total a xs) \<Longrightarrow> a \<le> y \<and> y \<le> a + sum_list xs"
  by (induction xs arbitrary: a) fastforce+

lemma running_total_sorted: "sorted (a # running_total a xs)"
proof (induction xs arbitrary: a)
  case Nil
  then show ?case by simp
next
  case (Cons x xs)
  have "\<forall>y \<in> set (running_total (a + x) xs). a \<le> y"
    using running_total_bounds[of _ "a + x" xs] by fastforce
  with Cons[of "a + x"] show ?case by simp
qed

lemma full_windows_fit: "0 < (R::nat) \<Longrightarrow> (R - 1) div W * W + (R - (R - 1) div W * W) = R"
proof -
  assume "0 < R"
  have "(R - 1) div W * W \<le> R - 1" by (rule div_times_less_eq_dividend)
  then show ?thesis by linarith
qed

lemma sum_chunks:
  "0 < (R::nat) \<Longrightarrow> sum_list (replicate ((R - 1) div W) W @ [R - (R - 1) div W * W]) = R"
  using full_windows_fit[of R W] by (simp add: sum_list_replicate)

lemma drive_pos:
  "0 < fuel \<Longrightarrow> drive fuel st w =
     (if completionFlag (fst (step st w))
      then Some ([fst (step st w)], fst (snd (step st w)), snd (snd (step st w)))
      else (case drive (fuel - 1) (fst (snd (step st w))) (snd (snd (step st w))) of
              None \<Rightarrow> None
            | Some (rs, st'', w'') \<Rightarrow> Some (fst (step st w) # rs, st'', w'')))"
  by (cases fuel) (simp_all del: drive.simps add: drive_Suc)

text \<open>
  Claim C2. A transfer with \<open>totalLength > 0\<close> and \<open>windowSize > 0\<close> that starts with
  nothing transferred completes when it is driven with enough fuel (the total length is
  enough); the chunk lengths of its steps sum to \<open>totalLength\<close>, the cumulative lengths it
  reports are the running totals of the chunks, never decrease and never exceed
  \<open>totalLength\<close>, and it ends with \<open>bytesTransferred = totalLength\<close>. Any single step
  from a state with \<open>bytesTransferred \<le> totalLength\<close> does not decrease
  \<open>bytesTransferred\<close> and keeps it at most \<open>totalLength\<close>.
\<close>

theorem keyhole_chunks_sum_to_total:
  "(0 < totalLength st \<and> 0 < windowSize st \<and> bytesTransferred st = 0
      \<and> unat (totalLength st) \<le> fuel \<longrightarrow>
     (\<exists>rs st' w'. drive fuel st w = Some (rs, st', w')
        \<and> sum_list (map (unat \<circ> chunkLength) rs) = unat (totalLength st)
        \<and> map (unat \<circ> cumulativeLength) rs = running_total 0 (map (unat \<circ> chunkLength) rs)
        \<and> sorted (0 # map (unat \<circ> cumulativeLength) rs)
        \<and> (\<forall>c \<in> set (map (unat \<circ> cumulativeLength) rs). c \<le> unat (totalLength st))
        \<and> bytesTransferred st' = totalLength st))
   \<and> (bytesTransferred st \<le> totalLength st \<longrightarrow>
        bytesTransferred st \<le> bytesTransferred (fst (snd (step st w)))
        \<and> bytesTransferred (fst (snd (step st w))) \<le> totalLength st
        \<and> totalLength (fst (snd (step st w))) = totalLength st)"
proof (intro conjI impI)
  assume a: "0 < totalLength st \<and> 0 < windowSize st \<and> bytesTransferred st = 0
      \<and> unat (totalLength st) \<le> fuel"
  let ?T = "unat (totalLength st)"
  let ?W = "unat (windowSize st)"
  from a have T: "0 < ?T" and W: "0 < ?W" and b: "unat (bytesTransferred st) = 0"
    by (simp_all add: word_less_nat_alt)
  from drive_core[of st fuel w] a T W b
  obtain rs st' w' where
    d: "drive fuel st w = Some (rs, st', w')"
    and ch: "map (unat \<circ> chunkLength) rs =
               replicate ((?T - 1) div ?W) ?W @ [?T - (?T - 1) div ?W * ?W]"
    and cu: "map (unat \<circ> cumulativeLength) rs = running_total 0 (map (unat \<circ> chunkLength) rs)"
    and fin: "bytesTransferred st' = totalLength st"
    by auto
  have s: "sum_list (map (unat \<circ> chunkLength) rs) = ?T"
    unfolding ch by (rule sum_chunks[OF T])
  have so: "sorted (0 # map (unat \<circ> cumulativeLength) rs)"
    unfolding cu by (rule running_total_sorted)
  have bd: "\<forall>c \<in> set (map (unat \<circ> cumulativeLength) rs). c \<le> ?T"
    unfolding cu using running_total_bounds[of _ 0 "map (unat \<circ> chunkLength) rs"] s
    by fastforce
  show "\<exists>rs st' w'. drive fuel st w = Some (rs, st', w')
        \<and> sum_list (map (unat \<circ> chunkLength) rs) = unat (totalLength st)
        \<and> map (unat \<circ> cumulativeLength) rs = running_total 0 (map (unat \<circ> chunkLength) rs)
        \<and> sorted (0 # map (unat \<circ> cumulativeLength) rs)
        \<and> (\<forall>c \<in> set (map (unat \<circ> cumulativeLength) rs). c \<le> unat (totalLength st))
        \<and> bytesTransferred st' = totalLength st"
    apply (rule exI[of _ rs])
    apply (rule exI[of _ st'])
    apply (rule exI[of _ w'])
    apply (intro conjI)
         apply (rule d)
        apply (rule s)
       apply (rule cu)
      apply (rule so)
     apply (rule bd)
    apply (rule fin)
    done
next
  assume inv: "bytesTransferred st \<le> totalLength st"
  show "bytesTransferred st \<le> bytesTransferred (fst (snd (step st w)))"
    by (rule step_invariant(1)[OF inv])
  show "bytesTransferred (fst (snd (step st w))) \<le> totalLength st"
    by (rule step_invariant(2)[OF inv])
  show "totalLength (fst (snd (step st w))) = totalLength st"
    by (rule step_fields(1))
qed

lemma example_drive:
  "drive 1000 example_transfer [] =
     Some ([\<lparr>chunkLength = 256, cumulativeLength = 256, completionFlag = False\<rparr>,
            \<lparr>chunkLength = 256, cumulativeLength = 512, completionFlag = False\<rparr>,
            \<lparr>chunkLength = 256, cumulativeLength = 768, completionFlag = False\<rparr>,
            \<lparr>chunkLength = 232, cumulativeLength = 1000, completionFlag = True\<rparr>],
           example_transfer\<lparr>bytesTransferred := 1000, sourceAddress := 0x13E8\<rparr>,
           [(0x1000, 0xF0000000, 256), (0x1100, 0xF0000000, 256),
            (0x1200, 0xF0000000, 256), (0x1300, 0xF0000000, 232)])"
  by (simp add: drive_pos step_def Let_def example_transfer_def log_move_def)

text \<open>The transfer of 1000 bytes through a window of 256.\<close>

theorem keyhole_sum_example:
  "beginTransfer 0x1000 0xF0000000 1000 256 log_move False (\<lambda>d w. True) = Inr example_transfer
   \<and> 0 < totalLength example_transfer \<and> 0 < windowSize example_transfer
   \<and> bytesTransferred example_transfer = 0 \<and> unat (totalLength example_transfer) \<le> 1000
   \<and> (\<exists>rs st' w'. drive 1000 example_transfer [] = Some (rs, st', w')
        \<and> map (unat \<circ> chunkLength) rs = [256, 256, 256, 232]
        \<and> sum_list (map (unat \<circ> chunkLength) rs) = 1000
        \<and> map (unat \<circ> cumulativeLength) rs = [256, 512, 768, 1000]
        \<and> bytesTransferred st' = 1000)"
proof -
  have b: "beginTransfer 0x1000 0xF0000000 1000 256 log_move False (\<lambda>d w. True)
             = Inr example_transfer"
    by (simp add: beginTransfer_def example_transfer_def)
  have h: "0 < totalLength example_transfer \<and> 0 < windowSize example_transfer
      \<and> bytesTransferred example_transfer = 0 \<and> unat (totalLength example_transfer) \<le> 1000"
    by (simp add: example_transfer_def)
  note t = keyhole_chunks_sum_to_total[of example_transfer 1000 "[]",
      THEN conjunct1, THEN mp, OF h]
  from t obtain rs st' w' where d: "drive 1000 example_transfer [] = Some (rs, st', w')"
    and s: "sum_list (map (unat \<circ> chunkLength) rs) = unat (totalLength example_transfer)"
    by (elim exE conjE)
  have T: "unat (totalLength example_transfer) = 1000"
    by (simp add: example_transfer_def)
  from d have rs: "rs = [\<lparr>chunkLength = 256, cumulativeLength = 256, completionFlag = False\<rparr>,
            \<lparr>chunkLength = 256, cumulativeLength = 512, completionFlag = False\<rparr>,
            \<lparr>chunkLength = 256, cumulativeLength = 768, completionFlag = False\<rparr>,
            \<lparr>chunkLength = 232, cumulativeLength = 1000, completionFlag = True\<rparr>]"
    and st: "st' = example_transfer\<lparr>bytesTransferred := 1000, sourceAddress := 0x13E8\<rparr>"
    unfolding example_drive by simp_all
  have e: "\<exists>rs st' w'. drive 1000 example_transfer [] = Some (rs, st', w')
        \<and> map (unat \<circ> chunkLength) rs = [256, 256, 256, 232]
        \<and> sum_list (map (unat \<circ> chunkLength) rs) = 1000
        \<and> map (unat \<circ> cumulativeLength) rs = [256, 512, 768, 1000]
        \<and> bytesTransferred st' = 1000"
    apply (rule exI[of _ rs])
    apply (rule exI[of _ st'])
    apply (rule exI[of _ w'])
    using d s T rs st apply simp
    done
  from b h e show ?thesis by (elim conjE) (intro conjI; assumption)
qed

text \<open>
  Claim C5. Every step moves \<open>min(windowSize, totalLength - bytesTransferred)\<close> bytes
  with the move function and raises the completion flag exactly when \<open>bytesTransferred\<close>
  has reached \<open>totalLength\<close>. A transfer with \<open>totalLength > 0\<close> and
  \<open>windowSize > 0\<close>, driven from the start, moves full windows and then a final chunk of
  \<open>totalLength mod windowSize\<close> bytes when that remainder is not zero, and of
  \<open>windowSize\<close> bytes otherwise; the completion flag is false on every step but the last
  and true on the last.
\<close>

theorem keyhole_final_chunk_and_completion:
  "(0 < totalLength st \<and> 0 < windowSize st \<and> bytesTransferred st = 0
      \<and> unat (totalLength st) \<le> fuel \<longrightarrow>
     (\<exists>rs st' w'. drive fuel st w = Some (rs, st', w')
        \<and> map chunkLength rs =
            replicate ((unat (totalLength st) - 1) div unat (windowSize st)) (windowSize st)
            @ [if totalLength st mod windowSize st \<noteq> 0
               then totalLength st mod windowSize st else windowSize st]
        \<and> map completionFlag rs =
            replicate ((unat (totalLength st) - 1) div unat (windowSize st)) False @ [True]
        \<and> bytesTransferred st' = totalLength st))
   \<and> chunkLength (fst (step st w)) = min (windowSize st) (totalLength st - bytesTransferred st)
   \<and> completionFlag (fst (step st w))
        = (bytesTransferred (fst (snd (step st w))) = totalLength st)
   \<and> snd (snd (step st w))
        = transferFunction st (sourceAddress st) (destinationAddress st)
            (min (windowSize st) (totalLength st - bytesTransferred st)) w"
proof (intro conjI impI)
  assume a: "0 < totalLength st \<and> 0 < windowSize st \<and> bytesTransferred st = 0
      \<and> unat (totalLength st) \<le> fuel"
  let ?T = "unat (totalLength st)"
  let ?W = "unat (windowSize st)"
  let ?k = "(?T - 1) div ?W"
  let ?last = "if totalLength st mod windowSize st \<noteq> 0
               then totalLength st mod windowSize st else windowSize st"
  from a have T: "0 < ?T" and W: "0 < ?W" and b: "unat (bytesTransferred st) = 0"
    by (simp_all add: word_less_nat_alt)
  from drive_core[of st fuel w] a T W b
  obtain rs st' w' where
    d: "drive fuel st w = Some (rs, st', w')"
    and ch: "map (unat \<circ> chunkLength) rs = replicate ?k ?W @ [?T - ?k * ?W]"
    and fl: "map completionFlag rs = replicate ?k False @ [True]"
    and la: "unat (chunkLength (last rs)) = (if ?T mod ?W = 0 then ?W else ?T mod ?W)"
    and fin: "bytesTransferred st' = totalLength st"
    by auto
  have ne: "rs \<noteq> []" using ch by auto
  have "last (map (unat \<circ> chunkLength) rs) = unat (chunkLength (last rs))"
    using ne by (simp add: last_map)
  with ch la have lastn: "?T - ?k * ?W = (if ?T mod ?W = 0 then ?W else ?T mod ?W)"
    by simp
  have lastw: "unat ?last = (if ?T mod ?W = 0 then ?W else ?T mod ?W)"
    by (simp add: unat_mod flip: unat_eq_zero)
  have "map unat (map chunkLength rs) = map unat (replicate ?k (windowSize st) @ [?last])"
    using ch lastn lastw by simp
  then have chw: "map chunkLength rs = replicate ?k (windowSize st) @ [?last]"
    by (simp only: inj_map_eq_map[OF inj_unsigned])
  show "\<exists>rs st' w'. drive fuel st w = Some (rs, st', w')
        \<and> map chunkLength rs = replicate ?k (windowSize st) @ [?last]
        \<and> map completionFlag rs = replicate ?k False @ [True]
        \<and> bytesTransferred st' = totalLength st"
    apply (rule exI[of _ rs])
    apply (rule exI[of _ st'])
    apply (rule exI[of _ w'])
    apply (intro conjI)
       apply (rule d)
      apply (rule chw)
     apply (rule fl)
    apply (rule fin)
    done
qed (simp_all add: step_def Let_def)

text \<open>
  The scenario of the specification: 1000 bytes through a window of 256 go in chunks of
  256, 256, 256 and 232 bytes, with cumulative lengths 256, 512, 768 and 1000, and the
  completion flag is raised on the last step only.
\<close>

theorem keyhole_scenario:
  "0 < totalLength example_transfer \<and> 0 < windowSize example_transfer
   \<and> bytesTransferred example_transfer = 0 \<and> unat (totalLength example_transfer) \<le> 1000
   \<and> (\<exists>rs st' w'. drive 1000 example_transfer [] = Some (rs, st', w')
        \<and> map chunkLength rs = [256, 256, 256, 232]
        \<and> map cumulativeLength rs = [256, 512, 768, 1000]
        \<and> map completionFlag rs = [False, False, False, True]
        \<and> w' = [(0x1000, 0xF0000000, 256), (0x1100, 0xF0000000, 256),
                 (0x1200, 0xF0000000, 256), (0x1300, 0xF0000000, 232)])
   \<and> (1000 :: u32) mod 256 = 232"
proof -
  have h: "0 < totalLength example_transfer \<and> 0 < windowSize example_transfer
      \<and> bytesTransferred example_transfer = 0 \<and> unat (totalLength example_transfer) \<le> 1000"
    by (simp add: example_transfer_def)
  note t = keyhole_final_chunk_and_completion[of example_transfer 1000 "[]",
      THEN conjunct1, THEN mp, OF h]
  from t obtain rs st' w' where d: "drive 1000 example_transfer [] = Some (rs, st', w')"
    by (elim exE conjE)
  have m: "(1000 :: u32) mod 256 = 232" by simp
  from d h m show ?thesis
    unfolding example_drive by auto
qed

subsection \<open>Procedure catalogue\<close>

lemma lookup_proc_None: "lookup_proc ProcId es = None \<longleftrightarrow> ProcId \<notin> Id' ` set es"
  by (induction es) auto

lemma lookup_proc_Some:
  "lookup_proc ProcId es = Some a \<Longrightarrow> \<exists>e \<in> set es. Id' e = ProcId \<and> Addr e = a"
  by (induction es) (auto split: if_splits)

lemma region_ids:
  "Id' ` set (map (region_entry readWord Address) [0 ..< n])
     = (\<lambda>i. readWord (Address + of_nat (8 * i))) ` {..< n}"
  by (simp add: image_image region_entry_def atLeast0LessThan)

lemma load_all_append: "load_all (xs @ ys) catalog = load_all ys (load_all xs catalog)"
  by (induction xs arbitrary: catalog) auto

lemma load_all_fail: "list_all load_fails ls \<Longrightarrow> load_all ls catalog = catalog"
  by (induction ls arbitrary: catalog)
     (auto simp add: load_fails_def XPlmi_SetProcList_def Let_def split: if_splits)

lemma SetProcList_replaces:
  "fst (XPlmi_SetProcList readWord Address Size c1) = None \<Longrightarrow>
   snd (XPlmi_SetProcList readWord Address Size c1) = snd (XPlmi_SetProcList readWord Address Size c2)"
  by (simp add: XPlmi_SetProcList_def Let_def split: if_splits)

text \<open>
  Claim C3. After a successful bulk load, executing an id resolves, and runs the
  interpreter, if and only if the id is the id of one of the pairs of the loaded region;
  otherwise it fails with \<open>NotFound\<close>. The address it resolves to is the address of a
  pair with that id. A bulk load that fails leaves the catalogue, and with it every
  execution, as it was. So after any sequence of loads that ends with this successful load
  followed by loads that all fail, the catalogue in force is the one this load installed:
  that of the most recent successful load.
\<close>

theorem execute_succeeds_iff_registered:
  "(XPlmi_SetProcList readWord Address Size catalog = (None, catalog') \<longrightarrow>
      ((\<exists>r. XPlmi_ExecuteProc run ProcId catalog' = Inr r)
         \<longleftrightarrow> (\<exists>i < unat Size div 8. readWord (Address + of_nat (8 * i)) = ProcId))
      \<and> ((XPlmi_ExecuteProc run ProcId catalog' = Inl NotFound)
         \<longleftrightarrow> \<not> (\<exists>i < unat Size div 8. readWord (Address + of_nat (8 * i)) = ProcId))
      \<and> (\<forall>a. lookup_proc ProcId catalog' = Some a \<longrightarrow>
            XPlmi_ExecuteProc run ProcId catalog' = Inr (run a)
            \<and> (\<exists>i < unat Size div 8. readWord (Address + of_nat (8 * i)) = ProcId
                                     \<and> readWord (Address + of_nat (8 * i + 4)) = a))
      \<and> (list_all load_fails later \<longrightarrow>
            load_all (earlier @ (readWord, Address, Size) # later) catalog0 = catalog'))
   \<and> (XPlmi_SetProcList readWord Address Size catalog = (Some e, catalog') \<longrightarrow>
        catalog' = catalog
        \<and> XPlmi_ExecuteProc run ProcId catalog' = XPlmi_ExecuteProc run ProcId catalog)"
proof (intro conjI impI allI)
  assume ok: "XPlmi_SetProcList readWord Address Size catalog = (None, catalog')"
  let ?n = "unat Size div 8"
  from ok have cat: "catalog' = map (region_entry readWord Address) [0 ..< ?n]"
    by (simp add: XPlmi_SetProcList_def Let_def split: if_splits)
  have present: "(ProcId \<in> Id' ` set catalog')
                   \<longleftrightarrow> (\<exists>i < ?n. readWord (Address + of_nat (8 * i)) = ProcId)"
    unfolding cat region_ids by auto
  show "(\<exists>r. XPlmi_ExecuteProc run ProcId catalog' = Inr r)
         \<longleftrightarrow> (\<exists>i < ?n. readWord (Address + of_nat (8 * i)) = ProcId)"
    unfolding present[symmetric] using lookup_proc_None[of ProcId catalog']
    by (auto simp add: XPlmi_ExecuteProc_def split: option.splits)
  show "(XPlmi_ExecuteProc run ProcId catalog' = Inl NotFound)
         \<longleftrightarrow> \<not> (\<exists>i < ?n. readWord (Address + of_nat (8 * i)) = ProcId)"
    unfolding present[symmetric] using lookup_proc_None[of ProcId catalog']
    by (auto simp add: XPlmi_ExecuteProc_def split: option.splits)
  show "load_all (earlier @ (readWord, Address, Size) # later) catalog0 = catalog'"
    if "list_all load_fails later"
  proof -
    from ok have "fst (XPlmi_SetProcList readWord Address Size catalog) = None" by simp
    from SetProcList_replaces[OF this, of "load_all earlier catalog0"] ok
    have "snd (XPlmi_SetProcList readWord Address Size (load_all earlier catalog0)) = catalog'"
      by simp
    then show ?thesis
      by (simp add: load_all_append load_all_fail[OF that])
  qed
  fix a assume l: "lookup_proc ProcId catalog' = Some a"
  show "XPlmi_ExecuteProc run ProcId catalog' = Inr (run a)"
    using l by (simp add: XPlmi_ExecuteProc_def)
  from lookup_proc_Some[OF l] obtain x where
    x: "x \<in> set catalog'" "Id' x = ProcId" "Addr x = a" by blast
  from x(1) obtain i where "i < ?n" "x = region_entry readWord Address i"
    unfolding cat by auto
  with x(2,3) show "\<exists>i < ?n. readWord (Address + of_nat (8 * i)) = ProcId
                            \<and> readWord (Address + of_nat (8 * i + 4)) = a"
    by (auto simp add: region_entry_def)
next
  assume "XPlmi_SetProcList readWord Address Size catalog = (Some e, catalog')"
  then show c: "catalog' = catalog"
    by (simp add: XPlmi_SetProcList_def Let_def split: if_splits)
  then show "XPlmi_ExecuteProc run ProcId catalog' = XPlmi_ExecuteProc run ProcId catalog"
    by simp
qed

lemma example_load:
  "XPlmi_SetProcList example_region 0x2000 80 [] = (None, example_catalog)"
  by (simp add: XPlmi_SetProcList_def XPLMI_MAX_PROCS_SUPPORTED_def Let_def upt_conv_Cons
        region_entry_def example_region_def example_catalog_def)

lemma example_overload:
  "XPlmi_SetProcList example_region 0x2000 88 example_catalog
     = (Some CapacityExceeded, example_catalog)"
  by (simp add: XPlmi_SetProcList_def XPLMI_MAX_PROCS_SUPPORTED_def Let_def)

text \<open>
  The scenario of the specification: ids 0 to 9 at the addresses \<open>0x1000 + 0x40 * id\<close>;
  executing 9 resolves to \<open>0x1240\<close>, executing 10 fails with \<open>NotFound\<close>, and a
  rejected load of eleven pairs after it leaves the catalogue as it was. The interpreter
  of the example returns the address it is started at.
\<close>

theorem catalog_scenario:
  "XPlmi_SetProcList example_region 0x2000 80 [] = (None, example_catalog)
   \<and> XPlmi_ExecuteProc (\<lambda>a. a) 9 example_catalog = Inr 0x1240
   \<and> XPlmi_ExecuteProc (\<lambda>a. a) 10 example_catalog = Inl NotFound
   \<and> \<not> (\<exists>i < unat (80 :: u16) div 8. example_region (0x2000 + of_nat (8 * i)) = 10)
   \<and> list_all load_fails [(example_region, 0x2000, 88)]
   \<and> load_all [(example_region, 0x2000, 80), (example_region, 0x2000, 88)] [] = example_catalog
   \<and> XPlmi_SetProcList example_region 0x2000 88 example_catalog
        = (Some CapacityExceeded, example_catalog)"
proof -
  note hit = execute_succeeds_iff_registered[of example_region "0x2000" 80 "[]" example_catalog
      "\<lambda>a. a" 9 "[(example_region, 0x2000, 88)]" "[]" "[]", THEN conjunct1, THEN mp,
      OF example_load]
  note miss = execute_succeeds_iff_registered[of example_region "0x2000" 80 "[]" example_catalog
      "\<lambda>a. a" 10, THEN conjunct1, THEN mp, OF example_load]
  have l9: "lookup_proc 9 example_catalog = Some 0x1240"
    by (simp add: example_catalog_def)
  have r10: "XPlmi_ExecuteProc (\<lambda>a. a) 10 example_catalog = Inl NotFound"
    by (simp add: XPlmi_ExecuteProc_def example_catalog_def)
  have fails: "list_all load_fails [(example_region, 0x2000, 88)]"
    by (simp add: load_fails_def XPlmi_SetProcList_def XPLMI_MAX_PROCS_SUPPORTED_def Let_def)
  from hit[THEN conjunct2, THEN conjunct2, THEN conjunct1, rule_format, OF l9]
  have r9: "XPlmi_ExecuteProc (\<lambda>a. a) 9 example_catalog = Inr 0x1240"
    by simp
  from miss[THEN conjunct2, THEN conjunct1] r10
  have absent: "\<not> (\<exists>i < unat (80 :: u16) div 8. example_region (0x2000 + of_nat (8 * i)) = 10)"
    by (rule iffD1)
  from hit[THEN conjunct2, THEN conjunct2, THEN conjunct2, THEN mp, OF fails]
  have la: "load_all [(example_region, 0x2000, 80), (example_region, 0x2000, 88)] []
              = example_catalog"
    by simp
  from example_load r9 r10 absent fails la example_overload show ?thesis
    by (intro conjI)
qed

text \<open>
  Claim C8. A bulk load whose region size implies more than \<open>XPLMI_MAX_PROCS_SUPPORTED\<close>
  (10) pairs fails with \<open>CapacityExceeded\<close> and leaves the catalogue exactly as it was;
  a load that succeeds installs as many entries as the size implies, never a shortened
  list.
\<close>

theorem oversized_catalog_rejected_wholesale:
  "(XPLMI_MAX_PROCS_SUPPORTED < unat Size div 8 \<longrightarrow>
      XPlmi_SetProcList readWord Address Size catalog = (Some CapacityExceeded, catalog))
   \<and> (XPlmi_SetProcList readWord Address Size catalog = (None, catalog') \<longrightarrow>
        unat Size div 8 \<le> XPLMI_MAX_PROCS_SUPPORTED
        \<and> length catalog' = unat Size div 8)
   \<and> XPLMI_MAX_PROCS_SUPPORTED = 10"
  by (auto simp add: XPlmi_SetProcList_def Let_def XPLMI_MAX_PROCS_SUPPORTED_def split: if_splits)

text \<open>A region of 88 bytes implies eleven pairs and is rejected; one of 80 bytes is loaded.\<close>

theorem oversized_catalog_example:
  "XPLMI_MAX_PROCS_SUPPORTED < unat (88 :: u16) div 8
   \<and> XPlmi_SetProcList example_region 0x2000 88 example_catalog
        = (Some CapacityExceeded, example_catalog)
   \<and> XPlmi_SetProcList example_region 0x2000 80 [] = (None, example_catalog)
   \<and> length example_catalog = 10"
proof -
  have big: "XPLMI_MAX_PROCS_SUPPORTED < unat (88 :: u16) div 8"
    by (simp add: XPLMI_MAX_PROCS_SUPPORTED_def)
  note rej = oversized_catalog_rejected_wholesale[of 88 example_region "0x2000" example_catalog,
      THEN conjunct1, THEN mp, OF big]
  note acc = oversized_catalog_rejected_wholesale[of 80 example_region "0x2000" "[]"
      example_catalog, THEN conjunct2, THEN conjunct1, THEN mp, OF example_load]
  from acc have len: "length example_catalog = 10" by simp
  from big rej example_load len show ?thesis by (intro conjI)
qed

end
